theory Spec2Isabelle
  imports Main
begin

section \<open>Data model\<close>

text \<open>
  The plugin manager of \<^verbatim>\<open>src/common/plugin_manager.cpp\<close>. The declarations of
  \<^verbatim>\<open>plugin_manager.h\<close> and of the plugin interfaces are not among the sources, so the
  containers are read off their use in the \<^verbatim>\<open>.cpp\<close> file: \<^verbatim>\<open>ownerPlug\<close> is a
  \<^verbatim>\<open>std::map\<close> (\<^verbatim>\<open>find\<close>, \<^verbatim>\<open>end\<close>, \<^verbatim>\<open>operator[]\<close>, \<^verbatim>\<open>.second\<close>), \<^verbatim>\<open>actionFilterMap\<close> and
  the three format tables are \<^verbatim>\<open>QMap\<close>s (\<^verbatim>\<open>insert\<close>, \<^verbatim>\<open>contains\<close>, \<^verbatim>\<open>find\<close>), everything
  else is a list that is only appended to.
\<close>

text \<open>
  A filter \<^verbatim>\<open>QAction\<close> together with what the owning filter plugin answers for it:
  \<^verbatim>\<open>text()\<close>, \<^verbatim>\<open>data()\<close> (\<open>None\<close> is the invalid \<^verbatim>\<open>QVariant\<close>), \<^verbatim>\<open>getClass\<close>,
  \<^verbatim>\<open>getRequirements\<close>, \<^verbatim>\<open>getPreConditions\<close>, \<^verbatim>\<open>postCondition\<close>, \<^verbatim>\<open>filterArity\<close>.
\<close>

record FilterAction =
  actionText :: string
  actionData :: "string option"
  getClass :: int
  getRequirements :: int
  getPreConditions :: int
  postCondition :: int
  filterArity :: int

text \<open>A decorator \<^verbatim>\<open>QAction\<close> with its \<^verbatim>\<open>decorationName\<close>, and an edit \<^verbatim>\<open>QAction\<close>.\<close>

record DecorateAction =
  decoratorText :: string
  decorationName :: string

record EditAction =
  editText :: string

record FileFormat =
  description :: string
  extensions :: "string list"

text \<open>
  The root object that \<^verbatim>\<open>QPluginLoader::instance\<close> returns. \<open>addr\<close> is the address of
  the object: all the registries hold pointers, and two modules with the same contents
  are still two objects. Each \<open>is...\<close> field says whether the corresponding
  \<^verbatim>\<open>qobject_cast\<close> gives a non-null pointer; the fields after it are what the methods of
  that interface return (read only when the cast succeeded).
\<close>

record Plugin =
  addr :: nat
  pluginName :: string
  isFilter :: bool
  filterActions :: "FilterAction list"
  isIOMesh :: bool
  importFormats :: "FileFormat list"
  exportFormats :: "FileFormat list"
  isIORaster :: bool
  rasterImportFormats :: "FileFormat list"
  isDecorate :: bool
  decorateActions :: "DecorateAction list"
  isRender :: bool
  isEditFactory :: bool
  editActions :: "EditAction list"

text \<open>
  The members of \<^verbatim>\<open>PluginManager\<close> that the code reads or writes. \<open>ownerPlug\<close> is kept
  as an association list with distinct keys in insertion order: the code looks keys up,
  inserts absent keys and walks over all entries in the destructor (the \<^verbatim>\<open>std::map\<close>
  walks them in key order, which nothing below depends on). \<open>diagnostics\<close> collects
  what the code writes to \<^verbatim>\<open>qDebug\<close> and \<^verbatim>\<open>std::cerr\<close>, one entry per statement.
\<close>

record PluginManager =
  pluginsLoaded :: "string list"
  actionFilterMap :: "string \<rightharpoonup> FilterAction"
  filterPlugins :: "Plugin list"
  ioMeshPlugins :: "Plugin list"
  ioRasterPlugins :: "Plugin list"
  decoratePlugins :: "Plugin list"
  renderPlugins :: "Plugin list"
  editPlugins :: "Plugin list"
  decoratorActionList :: "DecorateAction list"
  editActionList :: "EditAction list"
  ownerPlug :: "(string \<times> Plugin) list"
  allKnowInputMeshFormats :: "string \<rightharpoonup> Plugin"
  allKnowOutputFormats :: "string \<rightharpoonup> Plugin"
  allKnownInputRasterFormats :: "string \<rightharpoonup> Plugin"
  inpMeshFilters :: "string list"
  outFilters :: "string list"
  inpRasterFilters :: "string list"
  diagnostics :: "string list"

text \<open>
  The enumerators the validation compares against (\<^verbatim>\<open>FilterPluginInterface::Generic\<close>,
  \<^verbatim>\<open>MeshModel::MM_UNKNOWN\<close>, \<^verbatim>\<open>FilterPluginInterface::UNKNOWN_ARITY\<close>) are declared in
  headers that are not among the sources; they are taken as parameters.
\<close>

record Enumerators =
  Generic :: int
  MM_UNKNOWN :: int
  UNKNOWN_ARITY :: int

datatype platform = Q_OS_WIN | Q_OS_MAC | Q_OS_LINUX

text \<open>The default constructor: every container empty.\<close>

definition emptyManager :: PluginManager where
  "emptyManager =
     \<lparr> pluginsLoaded = [], actionFilterMap = Map.empty, filterPlugins = [],
       ioMeshPlugins = [], ioRasterPlugins = [], decoratePlugins = [],
       renderPlugins = [], editPlugins = [], decoratorActionList = [],
       editActionList = [], ownerPlug = [],
       allKnowInputMeshFormats = Map.empty, allKnowOutputFormats = Map.empty,
       allKnownInputRasterFormats = Map.empty,
       inpMeshFilters = [], outFilters = [], inpRasterFilters = [],
       diagnostics = [] \<rparr>"

section \<open>File name conventions\<close>

definition fileNamePluginDLLs :: "platform \<Rightarrow> string list" where
  "fileNamePluginDLLs os =
     (case os of Q_OS_WIN \<Rightarrow> [''*.dll'']
               | Q_OS_MAC \<Rightarrow> [''*.dylib'', ''*.so'']
               | Q_OS_LINUX \<Rightarrow> [''*.so''])"

definition fileNamePrefixPluginDLLs :: "platform \<Rightarrow> string" where
  "fileNamePrefixPluginDLLs os = (case os of Q_OS_WIN \<Rightarrow> [] | _ \<Rightarrow> ''lib'')"

text \<open>
  \<^verbatim>\<open>QFileInfo::baseName\<close> as Qt documents it: the file name is what follows the last
  directory separator, the base name is the file name up to, not including, its first
  dot. Qt's separator is the slash; on Windows a backslash is converted to it first.
\<close>

definition fromNativeSeparators :: "platform \<Rightarrow> string \<Rightarrow> string" where
  "fromNativeSeparators os path =
     (if os = Q_OS_WIN then map (\<lambda>c. if c = CHR 0x5C then CHR ''/'' else c) path else path)"

definition fileName_of :: "string \<Rightarrow> string" where
  "fileName_of path = rev (takeWhile (\<lambda>c. c \<noteq> CHR ''/'') (rev path))"

definition baseName :: "platform \<Rightarrow> string \<Rightarrow> string" where
  "baseName os path = takeWhile (\<lambda>c. c \<noteq> CHR ''.'') (fileName_of (fromNativeSeparators os path))"

text \<open>\<^verbatim>\<open>QString::remove(0, n)\<close> removes the first \<open>n\<close> characters, all of them when
  the string is shorter: it is \<open>drop n\<close>.\<close>

definition osIndependentPluginName :: "platform \<Rightarrow> string \<Rightarrow> string" where
  "osIndependentPluginName os plname =
     (let res = baseName os plname;
          pref = fileNamePrefixPluginDLLs os
      in drop (length pref) res)"

section \<open>The load pass\<close>

subsection \<open>Validation of a filter plugin\<close>

text \<open>
  One iteration of the first loop over \<^verbatim>\<open>iFilter->actions()\<close>: five independent
  checks, each writing its message and clearing \<^verbatim>\<open>loadFilterOK\<close>. The pair threaded
  through is (\<^verbatim>\<open>loadFilterOK\<close>, the diagnostics written so far).
\<close>

definition checkFilterAction ::
  "Enumerators \<Rightarrow> string \<Rightarrow> bool \<times> string list \<Rightarrow> FilterAction \<Rightarrow> bool \<times> string list" where
  "checkFilterAction K fileName st filterAction =
     (let st = (if getClass filterAction = Generic K
                then (False, snd st @ [''Missing class for '' @ fileName @ '' '' @ actionText filterAction])
                else st);
          st = (if getRequirements filterAction = MM_UNKNOWN K
                then (False, snd st @ [''Missing requirements for '' @ fileName @ '' '' @ actionText filterAction])
                else st);
          st = (if getPreConditions filterAction = MM_UNKNOWN K
                then (False, snd st @ [''Missing preconditions for '' @ fileName @ '' '' @ actionText filterAction])
                else st);
          st = (if postCondition filterAction = MM_UNKNOWN K
                then (False, snd st @ [''Missing postcondition for '' @ fileName @ '' '' @ actionText filterAction])
                else st);
          st = (if filterArity filterAction = UNKNOWN_ARITY K
                then (False, snd st @ [''Missing Arity for '' @ fileName @ '' '' @ actionText filterAction])
                else st)
      in st)"

definition checkFilterActions ::
  "Enumerators \<Rightarrow> string \<Rightarrow> string list \<Rightarrow> FilterAction list \<Rightarrow> bool \<times> string list" where
  "checkFilterActions K fileName diag acts = foldl (checkFilterAction K fileName) (True, diag) acts"

text \<open>
  The second loop: \<^verbatim>\<open>setData(fileName)\<close> on each action, then \<^verbatim>\<open>QMap::insert\<close>, which
  replaces the value of a key that is already there.
\<close>

definition setData :: "string \<Rightarrow> FilterAction \<Rightarrow> FilterAction" where
  "setData fileName filterAction = filterAction\<lparr>actionData := Some fileName\<rparr>"

definition insertFilterActions ::
  "string \<Rightarrow> (string \<rightharpoonup> FilterAction) \<Rightarrow> FilterAction list \<Rightarrow> (string \<rightharpoonup> FilterAction)" where
  "insertFilterActions fileName m acts =
     foldl (\<lambda>m filterAction. m(actionText filterAction \<mapsto> setData fileName filterAction)) m acts"

text \<open>The plugin object after the second loop has run over its actions.\<close>

definition tagged :: "string \<Rightarrow> Plugin \<Rightarrow> Plugin" where
  "tagged fileName plugin = plugin\<lparr>filterActions := map (setData fileName) (filterActions plugin)\<rparr>"

subsection \<open>One loaded plugin\<close>

text \<open>
  The blocks of the loop body after \<^verbatim>\<open>pluginsLoaded.push_back\<close>, in source order. Each
  takes and returns the manager, the plugin object (the filter block changes the data
  of its actions) and whether \<^verbatim>\<open>iCommon\<close> is non-null; \<^verbatim>\<open>iCommon\<close>, when set, points to
  the same object.
\<close>

type_synonym loadState = "PluginManager \<times> Plugin \<times> bool"

definition filterBlock :: "Enumerators \<Rightarrow> string \<Rightarrow> loadState \<Rightarrow> loadState" where
  "filterBlock K fileName st =
     (case st of (pm, plugin, iCommon) \<Rightarrow>
        if isFilter plugin then
          (let (loadFilterOK, diag) =
                 checkFilterActions K fileName (diagnostics pm) (filterActions plugin);
               pm = pm\<lparr>diagnostics := diag\<rparr>
           in if loadFilterOK then
                (let plugin' = tagged fileName plugin
                 in (pm\<lparr>actionFilterMap :=
                           insertFilterActions fileName (actionFilterMap pm) (filterActions plugin),
                        filterPlugins := filterPlugins pm @ [plugin']\<rparr>,
                     plugin', True))
              else (pm, plugin, True))
        else st)"

definition ioMeshBlock :: "loadState \<Rightarrow> loadState" where
  "ioMeshBlock st =
     (case st of (pm, plugin, iCommon) \<Rightarrow>
        if isIOMesh plugin
        then (pm\<lparr>ioMeshPlugins := ioMeshPlugins pm @ [plugin]\<rparr>, plugin, True)
        else st)"

definition ioRasterBlock :: "loadState \<Rightarrow> loadState" where
  "ioRasterBlock st =
     (case st of (pm, plugin, iCommon) \<Rightarrow>
        if isIORaster plugin
        then (pm\<lparr>ioRasterPlugins := ioRasterPlugins pm @ [plugin]\<rparr>, plugin, True)
        else st)"

text \<open>
  The decorator block also calls \<^verbatim>\<open>initGlobalParameterList(action, defaultGlobal)\<close> for
  each action; that call writes to the caller's \<^verbatim>\<open>defaultGlobal\<close> only, which no
  member of the manager reads, and is left out.
\<close>

definition decorateBlock :: "loadState \<Rightarrow> loadState" where
  "decorateBlock st =
     (case st of (pm, plugin, iCommon) \<Rightarrow>
        if isDecorate plugin
        then (pm\<lparr>decoratePlugins := decoratePlugins pm @ [plugin],
                 decoratorActionList := decoratorActionList pm @ decorateActions plugin\<rparr>,
              plugin, True)
        else st)"

definition renderBlock :: "loadState \<Rightarrow> loadState" where
  "renderBlock st =
     (case st of (pm, plugin, iCommon) \<Rightarrow>
        if isRender plugin
        then (pm\<lparr>renderPlugins := renderPlugins pm @ [plugin]\<rparr>, plugin, True)
        else st)"

definition ownerBlock :: "loadState \<Rightarrow> PluginManager" where
  "ownerBlock st =
     (case st of (pm, plugin, iCommon) \<Rightarrow>
        if isEditFactory plugin then
          pm\<lparr>editPlugins := editPlugins pm @ [plugin],
             editActionList := editActionList pm @ editActions plugin\<rparr>
        else if iCommon then
          (if map_of (ownerPlug pm) (pluginName plugin) = None
           then pm\<lparr>ownerPlug := ownerPlug pm @ [(pluginName plugin, plugin)]\<rparr>
           else pm\<lparr>diagnostics := diagnostics pm @
                    [''Warning: '' @ pluginName plugin @ '' has been already loaded.'' @ [CHR 0x0A]]\<rparr>)
        else pm)"

definition registerPlugin :: "Enumerators \<Rightarrow> string \<Rightarrow> Plugin \<Rightarrow> PluginManager \<Rightarrow> PluginManager" where
  "registerPlugin K fileName plugin pm =
     ownerBlock (renderBlock (decorateBlock (ioRasterBlock (ioMeshBlock
       (filterBlock K fileName (pm, plugin, False))))))"

subsection \<open>The loop over the directory entries\<close>

text \<open>
  A candidate is a file name of \<^verbatim>\<open>pluginsDir.entryList(QDir::Files)\<close> with what
  \<^verbatim>\<open>QPluginLoader\<close> makes of it: \<open>Inr\<close> the root object, or \<open>Inl\<close> the loader's
  \<^verbatim>\<open>errorString()\<close> when \<^verbatim>\<open>instance()\<close> is null.
\<close>

type_synonym candidate = "string \<times> (string + Plugin)"

definition loadCandidate :: "Enumerators \<Rightarrow> PluginManager \<Rightarrow> candidate \<Rightarrow> PluginManager" where
  "loadCandidate K pm c =
     (case c of (fileName, r) \<Rightarrow>
        (case r of
           Inr plugin \<Rightarrow>
             registerPlugin K fileName plugin (pm\<lparr>pluginsLoaded := pluginsLoaded pm @ [fileName]\<rparr>)
         | Inl errorString \<Rightarrow> pm\<lparr>diagnostics := diagnostics pm @ [errorString]\<rparr>))"

definition loadLoop :: "Enumerators \<Rightarrow> PluginManager \<Rightarrow> candidate list \<Rightarrow> PluginManager" where
  "loadLoop K pm cs = foldl (loadCandidate K) pm cs"

subsection \<open>The format tables\<close>

text \<open>
  \<^verbatim>\<open>QString::toLower\<close> is the library's; the functions below take the lower-casing
  function as a parameter, so what is proved of them holds for any such function.
  \<^verbatim>\<open>QObject::tr\<close> is taken without an installed translation: it returns its argument.

  The body of the loop over the extensions of one format. The triple threaded through
  is (\<^verbatim>\<open>map\<close>, \<^verbatim>\<open>allKnownFormatsFilter\<close>, \<^verbatim>\<open>currentFilterEntry\<close>).
\<close>

definition addExtension ::
  "(string \<Rightarrow> string) \<Rightarrow> Plugin \<Rightarrow> (string \<rightharpoonup> Plugin) \<times> string \<times> string \<Rightarrow> string
     \<Rightarrow> (string \<rightharpoonup> Plugin) \<times> string \<times> string" where
  "addExtension toLower pIOPlugin st ext =
     (case st of (m, allKnownFormatsFilter, currentFilterEntry) \<Rightarrow>
        (let currentExtension = toLower ext;
             (m, allKnownFormatsFilter) =
               (if m currentExtension = None
                then (m(currentExtension \<mapsto> pIOPlugin),
                      allKnownFormatsFilter @ '' *.'' @ currentExtension)
                else (m, allKnownFormatsFilter))
         in (m, allKnownFormatsFilter, currentFilterEntry @ '' *.'' @ currentExtension)))"

text \<open>The body of the loop over the formats: (\<^verbatim>\<open>map\<close>, \<^verbatim>\<open>formatFilters\<close>,
  \<^verbatim>\<open>allKnownFormatsFilter\<close>).\<close>

definition addFormat ::
  "(string \<Rightarrow> string) \<Rightarrow> Plugin \<Rightarrow> (string \<rightharpoonup> Plugin) \<times> string list \<times> string \<Rightarrow> FileFormat
     \<Rightarrow> (string \<rightharpoonup> Plugin) \<times> string list \<times> string" where
  "addFormat toLower pIOPlugin st currentFormat =
     (case st of (m, formatFilters, allKnownFormatsFilter) \<Rightarrow>
        (case foldl (addExtension toLower pIOPlugin)
                (m, allKnownFormatsFilter, description currentFormat @ '' ('')
                (extensions currentFormat) of
           (m, allKnownFormatsFilter, currentFilterEntry) \<Rightarrow>
             (m, formatFilters @ [currentFilterEntry @ '')''], allKnownFormatsFilter)))"

definition addPluginMeshFormats ::
  "(string \<Rightarrow> string) \<Rightarrow> (string \<rightharpoonup> Plugin) \<Rightarrow> string list \<Rightarrow> Plugin \<Rightarrow> FileFormat list
     \<Rightarrow> (string \<rightharpoonup> Plugin) \<times> string list \<times> string" where
  "addPluginMeshFormats toLower m formatFilters pMeshIOPlugin format =
     foldl (addFormat toLower pMeshIOPlugin) (m, formatFilters, []) format"

definition addPluginRasterFormats ::
  "(string \<Rightarrow> string) \<Rightarrow> (string \<rightharpoonup> Plugin) \<Rightarrow> string list \<Rightarrow> Plugin \<Rightarrow> FileFormat list
     \<Rightarrow> (string \<rightharpoonup> Plugin) \<times> string list \<times> string" where
  "addPluginRasterFormats toLower m formatFilters pRasterIOPlugin format =
     foldl (addFormat toLower pRasterIOPlugin) (m, formatFilters, []) format"

text \<open>
  The first loop of \<^verbatim>\<open>fillKnownIOFormats\<close>, over \<^verbatim>\<open>ioMeshPlugins\<close> and their import
  formats: (\<^verbatim>\<open>allKnowInputMeshFormats\<close>, \<^verbatim>\<open>inpMeshFilters\<close>, \<^verbatim>\<open>allKnownFormatsFilter\<close>).
\<close>

definition importMeshStep ::
  "(string \<Rightarrow> string) \<Rightarrow> (string \<rightharpoonup> Plugin) \<times> string list \<times> string \<Rightarrow> Plugin
     \<Rightarrow> (string \<rightharpoonup> Plugin) \<times> string list \<times> string" where
  "importMeshStep toLower st pMeshIOPlugin =
     (case st of (m, formatFilters, allKnownFormatsFilter) \<Rightarrow>
        (case addPluginMeshFormats toLower m formatFilters pMeshIOPlugin (importFormats pMeshIOPlugin) of
           (m, formatFilters, r) \<Rightarrow> (m, formatFilters, allKnownFormatsFilter @ r)))"

definition importMeshLoop ::
  "(string \<Rightarrow> string) \<Rightarrow> (string \<rightharpoonup> Plugin) \<Rightarrow> string list \<Rightarrow> Plugin list
     \<Rightarrow> (string \<rightharpoonup> Plugin) \<times> string list \<times> string" where
  "importMeshLoop toLower m formatFilters plugins =
     foldl (importMeshStep toLower) (m, formatFilters, ''All known formats ('') plugins"

definition exportMeshStep ::
  "(string \<Rightarrow> string) \<Rightarrow> (string \<rightharpoonup> Plugin) \<times> string list \<Rightarrow> Plugin
     \<Rightarrow> (string \<rightharpoonup> Plugin) \<times> string list" where
  "exportMeshStep toLower st pMeshIOPlugin =
     (case st of (m, formatFilters) \<Rightarrow>
        (case addPluginMeshFormats toLower m formatFilters pMeshIOPlugin (exportFormats pMeshIOPlugin) of
           (m, formatFilters, r) \<Rightarrow> (m, formatFilters)))"

definition importRasterStep ::
  "(string \<Rightarrow> string) \<Rightarrow> (string \<rightharpoonup> Plugin) \<times> string list \<times> string \<Rightarrow> Plugin
     \<Rightarrow> (string \<rightharpoonup> Plugin) \<times> string list \<times> string" where
  "importRasterStep toLower st pRasterIOPlugin =
     (case st of (m, formatFilters, allKnownFormatsFilter) \<Rightarrow>
        (case addPluginRasterFormats toLower m formatFilters pRasterIOPlugin
                (rasterImportFormats pRasterIOPlugin) of
           (m, formatFilters, r) \<Rightarrow> (m, formatFilters, allKnownFormatsFilter @ r)))"

definition fillKnownIOFormats :: "(string \<Rightarrow> string) \<Rightarrow> PluginManager \<Rightarrow> PluginManager" where
  "fillKnownIOFormats toLower pm =
     (case importMeshLoop toLower (allKnowInputMeshFormats pm) (inpMeshFilters pm) (ioMeshPlugins pm) of
        (im, imFilters, allKnownFormatsFilter) \<Rightarrow>
     (case foldl (exportMeshStep toLower) (allKnowOutputFormats pm, outFilters pm) (ioMeshPlugins pm) of
        (om, omFilters) \<Rightarrow>
     (case foldl (importRasterStep toLower)
             (allKnownInputRasterFormats pm, inpRasterFilters pm, ''All known formats ('')
             (ioRasterPlugins pm) of
        (rm, rFilters, allKnownRasterFilter) \<Rightarrow>
          pm\<lparr>allKnowInputMeshFormats := im,
             inpMeshFilters := (allKnownFormatsFilter @ '')'') # imFilters,
             allKnowOutputFormats := om,
             outFilters := omFilters,
             allKnownInputRasterFormats := rm,
             inpRasterFilters := (allKnownRasterFilter @ '')'') # rFilters\<rparr>)))"

subsection \<open>The whole pass\<close>

text \<open>
  \<^verbatim>\<open>loadPlugins(defaultGlobal, pluginsDirectory)\<close>. The directory is given by its
  absolute path and the candidates its listing yields (under the name filters of
  \<open>fileNamePluginDLLs\<close>), in listing order.
\<close>

definition loadPlugins ::
  "Enumerators \<Rightarrow> (string \<Rightarrow> string) \<Rightarrow> string \<Rightarrow> candidate list \<Rightarrow> PluginManager \<Rightarrow> PluginManager" where
  "loadPlugins K toLower absolutePath cs pm =
     fillKnownIOFormats toLower
       (loadLoop K (pm\<lparr>diagnostics := diagnostics pm @
                          [''Current Plugins Dir is: '' @ absolutePath @ '' '']\<rparr>) cs)"

section \<open>Queries\<close>

definition numberIOPlugins :: "PluginManager \<Rightarrow> nat" where
  "numberIOPlugins pm = length (ioMeshPlugins pm)"

definition size_pm :: "PluginManager \<Rightarrow> nat" where
  "size_pm pm = length (ownerPlug pm)"

datatype abort = AssertionFailed

text \<open>
  \<^verbatim>\<open>getDecoratePlugin\<close>: the two nested loops return at the first action whose decoration
  name is the one asked for. After the loops comes \<^verbatim>\<open>assert(0); return 0;\<close>: the
  assertion stops the process unless the build defines \<^verbatim>\<open>NDEBUG\<close>, in which case the
  null pointer is returned.
\<close>

primrec hasDecoration :: "string \<Rightarrow> DecorateAction list \<Rightarrow> bool" where
  "hasDecoration name [] = False"
| "hasDecoration name (ac # acs) =
     (if name = decorationName ac then True else hasDecoration name acs)"

primrec searchDecoratePlugins :: "string \<Rightarrow> Plugin list \<Rightarrow> Plugin option" where
  "searchDecoratePlugins name [] = None"
| "searchDecoratePlugins name (tt # tts) =
     (if hasDecoration name (decorateActions tt) then Some tt
      else searchDecoratePlugins name tts)"

definition getDecoratePlugin :: "bool \<Rightarrow> PluginManager \<Rightarrow> string \<Rightarrow> abort + Plugin option" where
  "getDecoratePlugin NDEBUG pm name =
     (case searchDecoratePlugins name (decoratePlugins pm) of
        Some tt \<Rightarrow> Inr (Some tt)
      | None \<Rightarrow> if NDEBUG then Inr None else Inl AssertionFailed)"

definition filterAction :: "PluginManager \<Rightarrow> string \<Rightarrow> FilterAction option" where
  "filterAction pm name = actionFilterMap pm name"

definition filterPluginIterator :: "PluginManager \<Rightarrow> Plugin list" where
  "filterPluginIterator pm = filterPlugins pm"

section \<open>Teardown\<close>

text \<open>
  The destructor clears the borrowing lists and applies \<^verbatim>\<open>delete\<close> to every value of
  \<^verbatim>\<open>ownerPlug\<close> and every element of \<^verbatim>\<open>editPlugins\<close>. \<open>deleted\<close> lists the addresses
  \<^verbatim>\<open>delete\<close> is applied to, one entry per \<^verbatim>\<open>delete\<close>; \<open>destructor\<close> returns them with
  the manager it leaves.
\<close>

definition deleted :: "PluginManager \<Rightarrow> nat list" where
  "deleted pm = map (\<lambda>plugin. addr (snd plugin)) (ownerPlug pm) @ map addr (editPlugins pm)"

definition destructor :: "PluginManager \<Rightarrow> nat list \<times> PluginManager" where
  "destructor pm =
     (deleted pm,
      pm\<lparr>ioMeshPlugins := [], filterPlugins := [], renderPlugins := [],
         decoratePlugins := [], ownerPlug := [], editPlugins := []\<rparr>)"

section \<open>Notions used in the statements\<close>

text \<open>An action passes the five checks of the validation loop.\<close>

definition wellSpecified :: "Enumerators \<Rightarrow> FilterAction \<Rightarrow> bool" where
  "wellSpecified K a \<longleftrightarrow>
     getClass a \<noteq> Generic K \<and> getRequirements a \<noteq> MM_UNKNOWN K \<and>
     getPreConditions a \<noteq> MM_UNKNOWN K \<and> postCondition a \<noteq> MM_UNKNOWN K \<and>
     filterArity a \<noteq> UNKNOWN_ARITY K"

text \<open>The plugin casts to the filter interface and all its actions pass: the case in
  which the code enters \<^verbatim>\<open>if (loadFilterOK)\<close>.\<close>

definition accepted :: "Enumerators \<Rightarrow> Plugin \<Rightarrow> bool" where
  "accepted K plugin \<longleftrightarrow> isFilter plugin \<and> list_all (wellSpecified K) (filterActions plugin)"

text \<open>The plugin object as the registries after the filter block see it.\<close>

definition loaded :: "Enumerators \<Rightarrow> string \<Rightarrow> Plugin \<Rightarrow> Plugin" where
  "loaded K fileName plugin = (if accepted K plugin then tagged fileName plugin else plugin)"

text \<open>\<^verbatim>\<open>iCommon\<close> is non-null when the loop body reaches the owner map: one of the five
  casts that assign it succeeded.\<close>

definition hasCommon :: "Plugin \<Rightarrow> bool" where
  "hasCommon plugin \<longleftrightarrow>
     isFilter plugin \<or> isIOMesh plugin \<or> isIORaster plugin \<or> isDecorate plugin \<or> isRender plugin"

text \<open>The line written to \<^verbatim>\<open>std::cerr\<close> when the name is in the owner map already.\<close>

definition alreadyLoaded :: "string \<Rightarrow> string" where
  "alreadyLoaded name = ''Warning: '' @ name @ '' has been already loaded.'' @ [CHR 0x0A]"

text \<open>A candidate whose load registers a filter action of the given name.\<close>

definition provides :: "Enumerators \<Rightarrow> string \<Rightarrow> candidate \<Rightarrow> bool" where
  "provides K name c \<longleftrightarrow>
     (case snd c of
        Inl errorString \<Rightarrow> False
      | Inr plugin \<Rightarrow> accepted K plugin \<and> name \<in> set (map actionText (filterActions plugin)))"

text \<open>The root objects of the candidates that loaded, in listing order.\<close>

definition modulesOf :: "candidate list \<Rightarrow> Plugin list" where
  "modulesOf cs = concat (map (\<lambda>c. case snd c of Inl errorString \<Rightarrow> [] | Inr plugin \<Rightarrow> [plugin]) cs)"

text \<open>The names under which the modules of a listing reach the owner map: those of
  the modules that are no edit factories and have \<^verbatim>\<open>iCommon\<close> set.\<close>

definition ownerNames :: "candidate list \<Rightarrow> string list" where
  "ownerNames cs =
     map pluginName (filter (\<lambda>plugin. \<not> isEditFactory plugin \<and> hasCommon plugin) (modulesOf cs))"

text \<open>A list without the later repetitions of its elements.\<close>

fun firstOccurrences :: "'a list \<Rightarrow> 'a list" where
  "firstOccurrences [] = []"
| "firstOccurrences (x # xs) = x # firstOccurrences (filter (\<lambda>y. y \<noteq> x) xs)"

text \<open>The extensions of a list of formats, lower-cased, in the order the loops visit them.\<close>

definition loweredExtensions :: "(string \<Rightarrow> string) \<Rightarrow> FileFormat list \<Rightarrow> string list" where
  "loweredExtensions toLower formats =
     concat (map (\<lambda>currentFormat. map toLower (extensions currentFormat)) formats)"

text \<open>The string a run of appended extensions adds, and the filter-string entry of one
  format: its description and all its extensions.\<close>

definition starDot :: "string list \<Rightarrow> string" where
  "starDot es = concat (map (\<lambda>e. '' *.'' @ e) es)"

definition filterEntry :: "(string \<Rightarrow> string) \<Rightarrow> FileFormat \<Rightarrow> string" where
  "filterEntry toLower currentFormat =
     description currentFormat @ '' ('' @ starDot (map toLower (extensions currentFormat)) @ '')''"

text \<open>A table in which one plugin has claimed those of the given extensions that were
  free, and the table in which each free extension belongs to the first plugin of a
  list that declares it among its import formats.\<close>

definition claimFree :: "(string \<rightharpoonup> Plugin) \<Rightarrow> Plugin \<Rightarrow> string list \<Rightarrow> (string \<rightharpoonup> Plugin)" where
  "claimFree m plugin es = (\<lambda>e. if m e = None \<and> e \<in> set es then Some plugin else m e)"

definition firstDeclaring ::
  "(string \<Rightarrow> string) \<Rightarrow> (string \<rightharpoonup> Plugin) \<Rightarrow> Plugin list \<Rightarrow> (string \<rightharpoonup> Plugin)" where
  "firstDeclaring toLower m plugins =
     (\<lambda>e. case m e of
             Some q \<Rightarrow> Some q
           | None \<Rightarrow> find (\<lambda>plugin. e \<in> set (loweredExtensions toLower (importFormats plugin))) plugins)"

section \<open>Example modules\<close>

text \<open>
  Concrete inputs for the instances below. The enumerator values are sample values;
  \<open>asciiToLower\<close> lower-cases the letters A to Z.
\<close>

definition exampleEnumerators :: Enumerators where
  "exampleEnumerators = \<lparr>Generic = 0, MM_UNKNOWN = 0x80000000, UNKNOWN_ARITY = 5\<rparr>"

definition asciiToLower :: "string \<Rightarrow> string" where
  "asciiToLower s =
     map (\<lambda>c. case map_of (zip ''ABCDEFGHIJKLMNOPQRSTUVWXYZ'' ''abcdefghijklmnopqrstuvwxyz'') c of
                Some l \<Rightarrow> l | None \<Rightarrow> c) s"

definition noPlugin :: Plugin where
  "noPlugin =
     \<lparr>addr = 0, pluginName = [], isFilter = False, filterActions = [],
      isIOMesh = False, importFormats = [], exportFormats = [],
      isIORaster = False, rasterImportFormats = [],
      isDecorate = False, decorateActions = [],
      isRender = False, isEditFactory = False, editActions = []\<rparr>"

definition goodAction :: "string \<Rightarrow> FilterAction" where
  "goodAction name =
     \<lparr>actionText = name, actionData = None, getClass = 1, getRequirements = 0,
      getPreConditions = 0, postCondition = 0, filterArity = 1\<rparr>"

definition brokenFilter :: Plugin where
  "brokenFilter =
     noPlugin\<lparr>addr := 1, pluginName := ''FilterBroken'', isFilter := True,
       filterActions := [goodAction ''A'', (goodAction ''B'')\<lparr>postCondition := 0x80000000\<rparr>],
       isIOMesh := True\<rparr>"

definition filterOnlyBroken :: Plugin where
  "filterOnlyBroken =
     noPlugin\<lparr>addr := 7, pluginName := ''FilterSketch'', isFilter := True,
       filterActions := [(goodAction ''Sketch'')\<lparr>filterArity := 5\<rparr>]\<rparr>"

definition editAndDecorate :: Plugin where
  "editAndDecorate =
     noPlugin\<lparr>addr := 3, pluginName := ''EditMeasure'', isDecorate := True,
       decorateActions := [\<lparr>decoratorText = ''Show ruler'', decorationName = ''Ruler''\<rparr>],
       isRender := True, isEditFactory := True,
       editActions := [\<lparr>editText = ''Measure''\<rparr>]\<rparr>"

definition threeCandidates :: "candidate list" where
  "threeCandidates =
     [(''libnotes.so'', Inl ''not a plugin''),
      (''libbroken.so'', Inr brokenFilter),
      (''libcore.so'', Inl ''cannot load library'')]"

definition ioWithName :: "nat \<Rightarrow> string \<Rightarrow> Plugin" where
  "ioWithName a name = noPlugin\<lparr>addr := a, pluginName := name, isIOMesh := True\<rparr>"

definition smoothFilter :: "nat \<Rightarrow> string \<Rightarrow> int \<Rightarrow> Plugin" where
  "smoothFilter a name cls =
     noPlugin\<lparr>addr := a, pluginName := name, isFilter := True,
       filterActions := [(goodAction ''Smooth'')\<lparr>getClass := cls\<rparr>]\<rparr>"

definition decorator :: "nat \<Rightarrow> string \<Rightarrow> string list \<Rightarrow> Plugin" where
  "decorator a name decorations =
     noPlugin\<lparr>addr := a, pluginName := name, isDecorate := True,
       decorateActions := map (\<lambda>d. \<lparr>decoratorText = d, decorationName = d\<rparr>) decorations\<rparr>"

definition twoDecorators :: PluginManager where
  "twoDecorators =
     loadLoop exampleEnumerators emptyManager
       [(''libdecorate_base.so'', Inr (decorator 1 ''DecorateBase'' [''Axis''])),
        (''libdecorate_extra.so'', Inr (decorator 2 ''DecorateExtra'' [''Axis'', ''Grid'']))]"

definition xyzReader :: "nat \<Rightarrow> string \<Rightarrow> string list \<Rightarrow> Plugin" where
  "xyzReader a name exts =
     noPlugin\<lparr>addr := a, pluginName := name, isIOMesh := True,
       importFormats := [\<lparr>description = name @ '' point cloud'', extensions = exts\<rparr>]\<rparr>"

section \<open>Properties\<close>

subsection \<open>The loop body in closed form\<close>

lemma checkFilterAction_fst:
  "fst (checkFilterAction K f st a) = (fst st \<and> wellSpecified K a)"
  by (cases st) (simp add: checkFilterAction_def wellSpecified_def Let_def)

lemma checkFilterActions_fold_fst:
  "fst (foldl (checkFilterAction K f) st acts) = (fst st \<and> list_all (wellSpecified K) acts)"
  by (induction acts arbitrary: st) (auto simp: checkFilterAction_fst)

lemma checkFilterActions_fst:
  "fst (checkFilterActions K f d acts) = list_all (wellSpecified K) acts"
  by (simp add: checkFilterActions_def checkFilterActions_fold_fst)

lemma checkFilterAction_snd:
  "\<exists>ms. snd (checkFilterAction K f st a) = snd st @ ms"
  by (cases st) (simp add: checkFilterAction_def Let_def)

lemma checkFilterActions_fold_snd:
  "\<exists>ms. snd (foldl (checkFilterAction K f) st acts) = snd st @ ms"
proof (induction acts arbitrary: st)
  case Nil
  then show ?case by simp
next
  case (Cons a acts)
  obtain ms where 1: "snd (checkFilterAction K f st a) = snd st @ ms"
    using checkFilterAction_snd by blast
  obtain ms' where "snd (foldl (checkFilterAction K f) (checkFilterAction K f st a) acts)
      = snd (checkFilterAction K f st a) @ ms'"
    using Cons.IH by blast
  with 1 show ?case by simp
qed

lemma checkFilterActions_snd:
  "\<exists>ms. snd (checkFilterActions K f d acts) = d @ ms"
  using checkFilterActions_fold_snd [of K f "(True, d)" acts]
  by (simp add: checkFilterActions_def)

lemma tagged_simps [simp]:
  "addr (tagged f p) = addr p" "pluginName (tagged f p) = pluginName p"
  "isFilter (tagged f p) = isFilter p" "isIOMesh (tagged f p) = isIOMesh p"
  "isIORaster (tagged f p) = isIORaster p" "isDecorate (tagged f p) = isDecorate p"
  "isRender (tagged f p) = isRender p" "isEditFactory (tagged f p) = isEditFactory p"
  "importFormats (tagged f p) = importFormats p" "exportFormats (tagged f p) = exportFormats p"
  "rasterImportFormats (tagged f p) = rasterImportFormats p"
  "decorateActions (tagged f p) = decorateActions p" "editActions (tagged f p) = editActions p"
  by (simp_all add: tagged_def)

lemma loaded_simps [simp]:
  "addr (loaded K f p) = addr p" "pluginName (loaded K f p) = pluginName p"
  "isFilter (loaded K f p) = isFilter p" "isIOMesh (loaded K f p) = isIOMesh p"
  "isIORaster (loaded K f p) = isIORaster p" "isDecorate (loaded K f p) = isDecorate p"
  "isRender (loaded K f p) = isRender p" "isEditFactory (loaded K f p) = isEditFactory p"
  "importFormats (loaded K f p) = importFormats p" "exportFormats (loaded K f p) = exportFormats p"
  "rasterImportFormats (loaded K f p) = rasterImportFormats p"
  "decorateActions (loaded K f p) = decorateActions p" "editActions (loaded K f p) = editActions p"
  by (simp_all add: loaded_def)

lemma filterBlock_eq:
  "filterBlock K f (pm, p, False) =
     (pm\<lparr>diagnostics :=
            (if isFilter p then snd (checkFilterActions K f (diagnostics pm) (filterActions p))
             else diagnostics pm),
         actionFilterMap :=
            (if accepted K p then insertFilterActions f (actionFilterMap pm) (filterActions p)
             else actionFilterMap pm),
         filterPlugins := filterPlugins pm @ (if accepted K p then [loaded K f p] else [])\<rparr>,
      loaded K f p, isFilter p)"
proof (cases "isFilter p")
  case False
  then show ?thesis by (simp add: filterBlock_def accepted_def loaded_def)
next
  case True
  obtain ok dg where c: "checkFilterActions K f (diagnostics pm) (filterActions p) = (ok, dg)"
    by (cases "checkFilterActions K f (diagnostics pm) (filterActions p)")
  have ok: "ok = list_all (wellSpecified K) (filterActions p)"
    using checkFilterActions_fst [of K f "diagnostics pm" "filterActions p"] c by simp
  show ?thesis
  proof (cases ok)
    case True
    with \<open>isFilter p\<close> c ok show ?thesis
      by (simp add: filterBlock_def accepted_def loaded_def Let_def)
  next
    case False
    with \<open>isFilter p\<close> c ok show ?thesis
      by (simp add: filterBlock_def accepted_def loaded_def)
  qed
qed

lemma ioMeshBlock_eq:
  "ioMeshBlock (pm, p, c) =
     (pm\<lparr>ioMeshPlugins := ioMeshPlugins pm @ (if isIOMesh p then [p] else [])\<rparr>,
      p, c \<or> isIOMesh p)"
  by (cases "isIOMesh p") (simp_all add: ioMeshBlock_def)

lemma ioRasterBlock_eq:
  "ioRasterBlock (pm, p, c) =
     (pm\<lparr>ioRasterPlugins := ioRasterPlugins pm @ (if isIORaster p then [p] else [])\<rparr>,
      p, c \<or> isIORaster p)"
  by (cases "isIORaster p") (simp_all add: ioRasterBlock_def)

lemma decorateBlock_eq:
  "decorateBlock (pm, p, c) =
     (pm\<lparr>decoratePlugins := decoratePlugins pm @ (if isDecorate p then [p] else []),
         decoratorActionList :=
           decoratorActionList pm @ (if isDecorate p then decorateActions p else [])\<rparr>,
      p, c \<or> isDecorate p)"
  by (cases "isDecorate p") (simp_all add: decorateBlock_def)

lemma renderBlock_eq:
  "renderBlock (pm, p, c) =
     (pm\<lparr>renderPlugins := renderPlugins pm @ (if isRender p then [p] else [])\<rparr>,
      p, c \<or> isRender p)"
  by (cases "isRender p") (simp_all add: renderBlock_def)

lemma ownerBlock_eq:
  "ownerBlock (pm, p, c) =
     pm\<lparr>editPlugins := editPlugins pm @ (if isEditFactory p then [p] else []),
        editActionList := editActionList pm @ (if isEditFactory p then editActions p else []),
        ownerPlug := ownerPlug pm @
          (if \<not> isEditFactory p \<and> c \<and> map_of (ownerPlug pm) (pluginName p) = None
           then [(pluginName p, p)] else []),
        diagnostics := diagnostics pm @
          (if \<not> isEditFactory p \<and> c \<and> map_of (ownerPlug pm) (pluginName p) \<noteq> None
           then [alreadyLoaded (pluginName p)] else [])\<rparr>"
proof (cases "isEditFactory p")
  case True
  then show ?thesis by (simp add: ownerBlock_def)
next
  case e: False
  show ?thesis
  proof (cases c)
    case False
    with e show ?thesis by (simp add: ownerBlock_def)
  next
    case True
    with e show ?thesis
      by (cases "map_of (ownerPlug pm) (pluginName p)") (simp_all add: ownerBlock_def alreadyLoaded_def)
  qed
qed

lemma registerPlugin_eq:
  "registerPlugin K f p pm =
     pm\<lparr>diagnostics :=
          (if isFilter p then snd (checkFilterActions K f (diagnostics pm) (filterActions p))
           else diagnostics pm) @
          (if \<not> isEditFactory p \<and> hasCommon p \<and> map_of (ownerPlug pm) (pluginName p) \<noteq> None
           then [alreadyLoaded (pluginName p)] else []),
        actionFilterMap :=
          (if accepted K p then insertFilterActions f (actionFilterMap pm) (filterActions p)
           else actionFilterMap pm),
        filterPlugins := filterPlugins pm @ (if accepted K p then [loaded K f p] else []),
        ioMeshPlugins := ioMeshPlugins pm @ (if isIOMesh p then [loaded K f p] else []),
        ioRasterPlugins := ioRasterPlugins pm @ (if isIORaster p then [loaded K f p] else []),
        decoratePlugins := decoratePlugins pm @ (if isDecorate p then [loaded K f p] else []),
        decoratorActionList :=
          decoratorActionList pm @ (if isDecorate p then decorateActions p else []),
        renderPlugins := renderPlugins pm @ (if isRender p then [loaded K f p] else []),
        editPlugins := editPlugins pm @ (if isEditFactory p then [loaded K f p] else []),
        editActionList := editActionList pm @ (if isEditFactory p then editActions p else []),
        ownerPlug := ownerPlug pm @
          (if \<not> isEditFactory p \<and> hasCommon p \<and> map_of (ownerPlug pm) (pluginName p) = None
           then [(pluginName p, loaded K f p)] else [])\<rparr>"
  unfolding registerPlugin_def filterBlock_eq ioMeshBlock_eq ioRasterBlock_eq decorateBlock_eq
    renderBlock_eq ownerBlock_eq
  by (simp add: hasCommon_def disj_ac)

lemma loadCandidate_Inr:
  "loadCandidate K pm (f, Inr p) =
     registerPlugin K f p (pm\<lparr>pluginsLoaded := pluginsLoaded pm @ [f]\<rparr>)"
  by (simp add: loadCandidate_def)

lemma loadCandidate_Inl:
  "loadCandidate K pm (f, Inl e) = pm\<lparr>diagnostics := diagnostics pm @ [e]\<rparr>"
  by (simp add: loadCandidate_def)

lemma not_accepted:
  "a \<in> set (filterActions p) \<Longrightarrow> \<not> wellSpecified K a \<Longrightarrow> \<not> accepted K p"
  by (auto simp: accepted_def list_all_iff)

lemma loadLoop_Nil [simp]: "loadLoop K pm [] = pm"
  by (simp add: loadLoop_def)

lemma loadLoop_Cons [simp]: "loadLoop K pm (c # cs) = loadLoop K (loadCandidate K pm c) cs"
  by (simp add: loadLoop_def)

lemma loadLoop_append: "loadLoop K pm (cs1 @ cs2) = loadLoop K (loadLoop K pm cs1) cs2"
  by (simp add: loadLoop_def)

lemma loadCandidate_pluginsLoaded:
  "pluginsLoaded (loadCandidate K pm c) =
     pluginsLoaded pm @ (if isl (snd c) then [] else [fst c])"
  by (cases c; cases "snd c") (simp_all add: loadCandidate_Inl loadCandidate_Inr registerPlugin_eq)

lemma loadLoop_pluginsLoaded:
  "pluginsLoaded (loadLoop K pm cs) =
     pluginsLoaded pm @ map fst (filter (\<lambda>c. \<not> isl (snd c)) cs)"
  by (induction cs arbitrary: pm) (simp_all add: loadCandidate_pluginsLoaded)

lemma fillKnownIOFormats_fields [simp]:
  "pluginsLoaded (fillKnownIOFormats toLower pm) = pluginsLoaded pm"
  "actionFilterMap (fillKnownIOFormats toLower pm) = actionFilterMap pm"
  "filterPlugins (fillKnownIOFormats toLower pm) = filterPlugins pm"
  "ioMeshPlugins (fillKnownIOFormats toLower pm) = ioMeshPlugins pm"
  "ioRasterPlugins (fillKnownIOFormats toLower pm) = ioRasterPlugins pm"
  "decoratePlugins (fillKnownIOFormats toLower pm) = decoratePlugins pm"
  "renderPlugins (fillKnownIOFormats toLower pm) = renderPlugins pm"
  "editPlugins (fillKnownIOFormats toLower pm) = editPlugins pm"
  "decoratorActionList (fillKnownIOFormats toLower pm) = decoratorActionList pm"
  "editActionList (fillKnownIOFormats toLower pm) = editActionList pm"
  "ownerPlug (fillKnownIOFormats toLower pm) = ownerPlug pm"
  "diagnostics (fillKnownIOFormats toLower pm) = diagnostics pm"
  by (simp_all add: fillKnownIOFormats_def split: prod.splits)

lemma loadCandidate_diagnostics: "\<exists>ms. diagnostics (loadCandidate K pm c) = diagnostics pm @ ms"
proof (cases c)
  case (Pair f r)
  show ?thesis
  proof (cases r)
    case (Inl e)
    with Pair show ?thesis by (simp add: loadCandidate_Inl)
  next
    case (Inr p)
    obtain ms where "snd (checkFilterActions K f (diagnostics pm) (filterActions p)) = diagnostics pm @ ms"
      using checkFilterActions_snd by blast
    with Pair Inr show ?thesis
      by (simp add: loadCandidate_Inr registerPlugin_eq)
  qed
qed

lemma loadLoop_diagnostics: "\<exists>ms. diagnostics (loadLoop K pm cs) = diagnostics pm @ ms"
proof (induction cs arbitrary: pm)
  case Nil
  then show ?case by simp
next
  case (Cons c cs)
  obtain ms where 1: "diagnostics (loadCandidate K pm c) = diagnostics pm @ ms"
    using loadCandidate_diagnostics by blast
  obtain ms' where "diagnostics (loadLoop K (loadCandidate K pm c) cs)
      = diagnostics (loadCandidate K pm c) @ ms'"
    using Cons.IH by blast
  with 1 show ?case by simp
qed

lemma loadLoop_diagnostics_mono:
  "d \<in> set (diagnostics pm) \<Longrightarrow> d \<in> set (diagnostics (loadLoop K pm cs))"
  using loadLoop_diagnostics [of K pm cs] by auto

lemma loadLoop_errorString:
  "(f, Inl e) \<in> set cs \<Longrightarrow> e \<in> set (diagnostics (loadLoop K pm cs))"
proof (induction cs arbitrary: pm)
  case Nil
  then show ?case by simp
next
  case (Cons c cs)
  show ?case
  proof (cases "c = (f, Inl e)")
    case True
    then have "e \<in> set (diagnostics (loadCandidate K pm c))"
      by (simp add: loadCandidate_Inl)
    then show ?thesis
      by (simp add: loadLoop_diagnostics_mono)
  next
    case False
    with Cons.prems have "(f, Inl e) \<in> set cs" by simp
    then show ?thesis by (simp add: Cons.IH)
  qed
qed

lemma loadCandidate_ownerPlug_new:
  "e \<in> set (ownerPlug (loadCandidate K pm c)) \<Longrightarrow>
     e \<in> set (ownerPlug pm) \<or> \<not> isEditFactory (snd e)"
  by (cases c; cases "snd c")
     (auto simp: loadCandidate_Inl loadCandidate_Inr registerPlugin_eq split: if_splits)

lemma loadLoop_ownerPlug_new:
  "e \<in> set (ownerPlug (loadLoop K pm cs)) \<Longrightarrow>
     e \<in> set (ownerPlug pm) \<or> \<not> isEditFactory (snd e)"
proof (induction cs arbitrary: pm)
  case Nil
  then show ?case by simp
next
  case (Cons c cs)
  from Cons.prems have "e \<in> set (ownerPlug (loadLoop K (loadCandidate K pm c) cs))"
    by simp
  then have "e \<in> set (ownerPlug (loadCandidate K pm c)) \<or> \<not> isEditFactory (snd e)"
    by (rule Cons.IH)
  then show ?case
    using loadCandidate_ownerPlug_new by blast
qed

subsection \<open>Validation is all or nothing\<close>

text \<open>
  C1. A module that casts to the filter interface and has an action failing one of the
  five checks (class is \<open>Generic\<close>, requirements, preconditions or postcondition are
  \<open>MM_UNKNOWN\<close>, arity is \<open>UNKNOWN_ARITY\<close>) leaves the action registry exactly as it
  was: none of its actions is inserted, the well-specified ones included. Its other
  registrations go ahead as the respective cast decides: the MeshIO, RasterIO, Decorate
  and Render lists and the decorator action list get the module when it has that
  capability, and the owner map gets it under its name unless it is an edit factory or
  the name is taken.
\<close>

theorem invalid_filter_module_registers_no_action:
  assumes "isFilter p" and "a \<in> set (filterActions p)"
    and "getClass a = Generic K \<or> getRequirements a = MM_UNKNOWN K \<or>
         getPreConditions a = MM_UNKNOWN K \<or> postCondition a = MM_UNKNOWN K \<or>
         filterArity a = UNKNOWN_ARITY K"
  shows "actionFilterMap (loadCandidate K pm (fileName, Inr p)) = actionFilterMap pm
    \<and> filterAction (loadCandidate K pm (fileName, Inr p)) = filterAction pm
    \<and> ioMeshPlugins (loadCandidate K pm (fileName, Inr p)) =
        ioMeshPlugins pm @ (if isIOMesh p then [p] else [])
    \<and> ioRasterPlugins (loadCandidate K pm (fileName, Inr p)) =
        ioRasterPlugins pm @ (if isIORaster p then [p] else [])
    \<and> decoratePlugins (loadCandidate K pm (fileName, Inr p)) =
        decoratePlugins pm @ (if isDecorate p then [p] else [])
    \<and> decoratorActionList (loadCandidate K pm (fileName, Inr p)) =
        decoratorActionList pm @ (if isDecorate p then decorateActions p else [])
    \<and> renderPlugins (loadCandidate K pm (fileName, Inr p)) =
        renderPlugins pm @ (if isRender p then [p] else [])
    \<and> ownerPlug (loadCandidate K pm (fileName, Inr p)) =
        ownerPlug pm @
        (if \<not> isEditFactory p \<and> map_of (ownerPlug pm) (pluginName p) = None
         then [(pluginName p, p)] else [])"
proof -
  from assms(3) have "\<not> wellSpecified K a"
    by (auto simp: wellSpecified_def)
  with assms(2) have na: "\<not> accepted K p"
    by (rule not_accepted)
  then have l: "loaded K fileName p = p"
    by (simp add: loaded_def)
  from assms(1) have c: "hasCommon p"
    by (simp add: hasCommon_def)
  show ?thesis
    unfolding loadCandidate_Inr registerPlugin_eq filterAction_def
    using na l c by simp
qed

theorem invalid_filter_module_registers_no_action_witness:
  "isFilter brokenFilter
   \<and> (goodAction ''B'')\<lparr>postCondition := 0x80000000\<rparr> \<in> set (filterActions brokenFilter)
   \<and> postCondition ((goodAction ''B'')\<lparr>postCondition := 0x80000000\<rparr>) = MM_UNKNOWN exampleEnumerators
   \<and> filterAction (loadCandidate exampleEnumerators emptyManager (''libbroken.so'', Inr brokenFilter)) ''A'' = None
   \<and> ioMeshPlugins (loadCandidate exampleEnumerators emptyManager (''libbroken.so'', Inr brokenFilter)) = [brokenFilter]
   \<and> ownerPlug (loadCandidate exampleEnumerators emptyManager (''libbroken.so'', Inr brokenFilter)) = [(''FilterBroken'', brokenFilter)]"
  using invalid_filter_module_registers_no_action
    [of brokenFilter "(goodAction ''B'')\<lparr>postCondition := 0x80000000\<rparr>" exampleEnumerators
        emptyManager "''libbroken.so''"]
  by (simp add: brokenFilter_def noPlugin_def goodAction_def exampleEnumerators_def emptyManager_def
        filterAction_def)

text \<open>
  C10. Such a module is not appended to \<open>filterPlugins\<close>, the list the filter plugin
  iterator walks, so it stays absent from the iteration when it was absent before. The
  successful cast has set \<^verbatim>\<open>iCommon\<close> all the same: unless the module is an edit
  factory or its name is taken, it is inserted into the owner map under its name, also
  when it has no other capability.
\<close>

theorem invalid_filter_module_not_iterated_but_owned:
  assumes "isFilter p" and "a \<in> set (filterActions p)"
    and "getClass a = Generic K \<or> getRequirements a = MM_UNKNOWN K \<or>
         getPreConditions a = MM_UNKNOWN K \<or> postCondition a = MM_UNKNOWN K \<or>
         filterArity a = UNKNOWN_ARITY K"
  shows "filterPlugins (loadCandidate K pm (fileName, Inr p)) = filterPlugins pm
    \<and> filterPluginIterator (loadCandidate K pm (fileName, Inr p)) = filterPluginIterator pm
    \<and> ((\<forall>q \<in> set (filterPluginIterator pm). addr q \<noteq> addr p) \<longrightarrow>
        (\<forall>q \<in> set (filterPluginIterator (loadCandidate K pm (fileName, Inr p))). addr q \<noteq> addr p))
    \<and> (\<not> isEditFactory p \<and> map_of (ownerPlug pm) (pluginName p) = None \<longrightarrow>
        ownerPlug (loadCandidate K pm (fileName, Inr p)) = ownerPlug pm @ [(pluginName p, p)]
        \<and> map_of (ownerPlug (loadCandidate K pm (fileName, Inr p))) (pluginName p) = Some p)"
proof -
  from assms(3) have "\<not> wellSpecified K a"
    by (auto simp: wellSpecified_def)
  with assms(2) have na: "\<not> accepted K p"
    by (rule not_accepted)
  then have l: "loaded K fileName p = p"
    by (simp add: loaded_def)
  from assms(1) have c: "hasCommon p"
    by (simp add: hasCommon_def)
  show ?thesis
    unfolding loadCandidate_Inr registerPlugin_eq filterPluginIterator_def
    using na l c by (simp add: map_add_def)
qed

theorem invalid_filter_module_not_iterated_but_owned_witness:
  "isFilter filterOnlyBroken
   \<and> (goodAction ''Sketch'')\<lparr>filterArity := 5\<rparr> \<in> set (filterActions filterOnlyBroken)
   \<and> filterArity ((goodAction ''Sketch'')\<lparr>filterArity := 5\<rparr>) = UNKNOWN_ARITY exampleEnumerators
   \<and> \<not> isEditFactory filterOnlyBroken
   \<and> map_of (ownerPlug emptyManager) (pluginName filterOnlyBroken) = None
   \<and> filterPluginIterator (loadCandidate exampleEnumerators emptyManager (''libsketch.so'', Inr filterOnlyBroken)) = []
   \<and> ownerPlug (loadCandidate exampleEnumerators emptyManager (''libsketch.so'', Inr filterOnlyBroken))
       = [(''FilterSketch'', filterOnlyBroken)]"
  using invalid_filter_module_not_iterated_but_owned
    [of filterOnlyBroken "(goodAction ''Sketch'')\<lparr>filterArity := 5\<rparr>" exampleEnumerators
        emptyManager "''libsketch.so''"]
  by (simp add: filterOnlyBroken_def noPlugin_def goodAction_def exampleEnumerators_def
        emptyManager_def filterPluginIterator_def)

subsection \<open>Edit factories\<close>

text \<open>
  C4. A module that casts to the edit factory interface is appended to \<open>editPlugins\<close>
  (the same object: its address is unchanged) and its actions to the edit action list;
  the owner map and its size stay as they were, whatever other casts succeed. Over a
  whole pass, every entry of the owner map that was not there before belongs to a
  module that is not an edit factory.
\<close>

theorem edit_factory_module_never_owned:
  assumes "isEditFactory p"
  shows "editPlugins (loadCandidate K pm (fileName, Inr p)) = editPlugins pm @ [loaded K fileName p]
    \<and> addr (loaded K fileName p) = addr p
    \<and> editActionList (loadCandidate K pm (fileName, Inr p)) = editActionList pm @ editActions p
    \<and> ownerPlug (loadCandidate K pm (fileName, Inr p)) = ownerPlug pm
    \<and> size_pm (loadCandidate K pm (fileName, Inr p)) = size_pm pm
    \<and> (\<forall>e \<in> set (ownerPlug (loadPlugins K toLower dir cs pm)).
          e \<in> set (ownerPlug pm) \<or> \<not> isEditFactory (snd e))"
proof -
  have "\<forall>e \<in> set (ownerPlug (loadPlugins K toLower dir cs pm)).
          e \<in> set (ownerPlug pm) \<or> \<not> isEditFactory (snd e)"
    using loadLoop_ownerPlug_new [of _ K "pm\<lparr>diagnostics := diagnostics pm @
        [''Current Plugins Dir is: '' @ dir @ '' '']\<rparr>" cs]
    by (simp add: loadPlugins_def)
  with assms show ?thesis
    by (simp add: loadCandidate_Inr registerPlugin_eq size_pm_def)
qed

theorem edit_factory_module_never_owned_witness:
  "isEditFactory editAndDecorate
   \<and> editPlugins (loadCandidate exampleEnumerators emptyManager (''libedit_measure.so'', Inr editAndDecorate))
       = [editAndDecorate]
   \<and> decoratePlugins (loadCandidate exampleEnumerators emptyManager (''libedit_measure.so'', Inr editAndDecorate))
       = [editAndDecorate]
   \<and> ownerPlug (loadCandidate exampleEnumerators emptyManager (''libedit_measure.so'', Inr editAndDecorate)) = []
   \<and> size_pm (loadCandidate exampleEnumerators emptyManager (''libedit_measure.so'', Inr editAndDecorate)) = 0"
  using edit_factory_module_never_owned
    [of editAndDecorate exampleEnumerators emptyManager "''libedit_measure.so''" asciiToLower "[]" "[]"]
  by (simp add: editAndDecorate_def noPlugin_def emptyManager_def loaded_def accepted_def
        size_pm_def loadCandidate_Inr registerPlugin_eq)

subsection \<open>The pass never stops\<close>

text \<open>
  C8. The pass is a fold of the loop body over all candidates: whatever the first
  candidates were, the next one is processed. A candidate that fails to load only
  appends the loader's error string to the diagnostics, and that string is in the
  diagnostics at the end of the pass. \<open>pluginsLoaded\<close> gains the file names of the
  candidates that loaded, in order, one entry each: the failing candidates can be removed
  from the listing without changing it.
\<close>

theorem load_pass_attempts_every_candidate:
  "pluginsLoaded (loadPlugins K toLower dir cs pm) =
     pluginsLoaded pm @ map fst (filter (\<lambda>c. \<not> isl (snd c)) cs)
   \<and> length (pluginsLoaded (loadPlugins K toLower dir cs pm)) =
       length (pluginsLoaded pm) + length (filter (\<lambda>c. \<not> isl (snd c)) cs)
   \<and> pluginsLoaded (loadPlugins K toLower dir cs pm) =
       pluginsLoaded (loadPlugins K toLower dir (filter (\<lambda>c. \<not> isl (snd c)) cs) pm)
   \<and> (\<forall>f e. (f, Inl e) \<in> set cs \<longrightarrow> e \<in> set (diagnostics (loadPlugins K toLower dir cs pm)))
   \<and> loadCandidate K pm (fileName, Inl errorString) =
       pm\<lparr>diagnostics := diagnostics pm @ [errorString]\<rparr>
   \<and> loadLoop K pm (cs1 @ c # cs2) = loadLoop K (loadCandidate K (loadLoop K pm cs1) c) cs2"
  by (simp add: loadPlugins_def loadLoop_pluginsLoaded loadLoop_errorString loadCandidate_Inl
        loadLoop_append)

theorem load_pass_attempts_every_candidate_witness:
  "(''libcore.so'', Inl ''cannot load library'') \<in> set threeCandidates
   \<and> ''cannot load library'' \<in> set (diagnostics
         (loadPlugins exampleEnumerators asciiToLower ''/opt/plugins'' threeCandidates emptyManager))
   \<and> pluginsLoaded
         (loadPlugins exampleEnumerators asciiToLower ''/opt/plugins'' threeCandidates emptyManager)
       = [''libbroken.so'']"
  using load_pass_attempts_every_candidate
    [of exampleEnumerators asciiToLower "''/opt/plugins''" threeCandidates emptyManager]
  by (simp add: threeCandidates_def emptyManager_def)

subsection \<open>Name conflicts in the owner map\<close>

lemma modulesOf_simps [simp]:
  "modulesOf [] = []"
  "modulesOf ((f, Inl e) # cs) = modulesOf cs"
  "modulesOf ((f, Inr p) # cs) = p # modulesOf cs"
  "modulesOf (cs @ cs') = modulesOf cs @ modulesOf cs'"
  by (simp_all add: modulesOf_def)

lemma ownerPlug_keys_loadCandidate:
  "fst ` set (ownerPlug (loadCandidate K pm c)) = fst ` set (ownerPlug pm) \<union> set (ownerNames [c])"
proof (cases c)
  case (Pair f r)
  show ?thesis
  proof (cases r)
    case (Inl e)
    with Pair show ?thesis
      by (simp add: loadCandidate_Inl ownerNames_def)
  next
    case (Inr p)
    show ?thesis
    proof (cases "map_of (ownerPlug pm) (pluginName p) = None")
      case True
      with Pair Inr show ?thesis
        by (simp add: loadCandidate_Inr registerPlugin_eq ownerNames_def)
    next
      case False
      then have "pluginName p \<in> fst ` set (ownerPlug pm)"
        by (simp add: map_of_eq_None_iff)
      with False Pair Inr show ?thesis
        by (auto simp: loadCandidate_Inr registerPlugin_eq ownerNames_def)
    qed
  qed
qed

lemma ownerNames_Cons: "set (ownerNames (c # cs)) = set (ownerNames [c]) \<union> set (ownerNames cs)"
  by (cases c; cases "snd c") (auto simp: ownerNames_def)

lemma ownerPlug_keys_loadLoop:
  "fst ` set (ownerPlug (loadLoop K pm cs)) = fst ` set (ownerPlug pm) \<union> set (ownerNames cs)"
proof (induction cs arbitrary: pm)
  case Nil
  then show ?case by (simp add: ownerNames_def)
next
  case (Cons c cs)
  show ?case
    unfolding loadLoop_Cons Cons.IH ownerPlug_keys_loadCandidate ownerNames_Cons [of c cs]
    by auto
qed

lemma loadCandidate_owner_kept:
  assumes "map_of (ownerPlug pm) n = Some q"
  shows "map_of (ownerPlug (loadCandidate K pm c)) n = Some q
    \<and> filter (\<lambda>e. fst e = n) (ownerPlug (loadCandidate K pm c)) = filter (\<lambda>e. fst e = n) (ownerPlug pm)"
proof (cases c)
  case (Pair f r)
  show ?thesis
  proof (cases r)
    case (Inl e)
    with Pair assms show ?thesis by (simp add: loadCandidate_Inl)
  next
    case (Inr p)
    with Pair assms show ?thesis
      by (auto simp: loadCandidate_Inr registerPlugin_eq map_add_def)
  qed
qed

lemma loadLoop_owner_kept:
  "map_of (ownerPlug pm) n = Some q \<Longrightarrow>
     map_of (ownerPlug (loadLoop K pm cs)) n = Some q
     \<and> filter (\<lambda>e. fst e = n) (ownerPlug (loadLoop K pm cs)) = filter (\<lambda>e. fst e = n) (ownerPlug pm)"
proof (induction cs arbitrary: pm)
  case Nil
  then show ?case by simp
next
  case (Cons c cs)
  from loadCandidate_owner_kept [OF Cons.prems, of K c] Cons.IH [of "loadCandidate K pm c"]
  show ?case by simp
qed

lemma loadCandidate_lists_mono:
  "set (filterPlugins pm) \<subseteq> set (filterPlugins (loadCandidate K pm c))
   \<and> set (ioMeshPlugins pm) \<subseteq> set (ioMeshPlugins (loadCandidate K pm c))
   \<and> set (ioRasterPlugins pm) \<subseteq> set (ioRasterPlugins (loadCandidate K pm c))
   \<and> set (decoratePlugins pm) \<subseteq> set (decoratePlugins (loadCandidate K pm c))
   \<and> set (decoratorActionList pm) \<subseteq> set (decoratorActionList (loadCandidate K pm c))
   \<and> set (renderPlugins pm) \<subseteq> set (renderPlugins (loadCandidate K pm c))"
  by (cases c; cases "snd c") (simp_all add: loadCandidate_Inl loadCandidate_Inr registerPlugin_eq)

lemma loadLoop_lists_mono:
  "set (filterPlugins pm) \<subseteq> set (filterPlugins (loadLoop K pm cs))
   \<and> set (ioMeshPlugins pm) \<subseteq> set (ioMeshPlugins (loadLoop K pm cs))
   \<and> set (ioRasterPlugins pm) \<subseteq> set (ioRasterPlugins (loadLoop K pm cs))
   \<and> set (decoratePlugins pm) \<subseteq> set (decoratePlugins (loadLoop K pm cs))
   \<and> set (decoratorActionList pm) \<subseteq> set (decoratorActionList (loadLoop K pm cs))
   \<and> set (renderPlugins pm) \<subseteq> set (renderPlugins (loadLoop K pm cs))"
proof (induction cs arbitrary: pm)
  case Nil
  then show ?case by simp
next
  case (Cons c cs)
  from loadCandidate_lists_mono [of pm K c] Cons.IH [of "loadCandidate K pm c"]
  show ?case
    unfolding loadLoop_Cons by (meson subset_trans)
qed

text \<open>
  C5. Two modules declare the same name \<open>n\<close>, and both reach the insertion into the
  owner map: neither is an edit factory and each has one of the five casts that set
  \<^verbatim>\<open>iCommon\<close>. The first is the first of the pass to bring the name: the name is not
  in the map at the start and no module before it reaches the map under it. Then at the end
  of the pass, whatever is loaded between and after them, the owner map has exactly one
  entry for \<open>n\<close>, bound to the first module (the same object: its address is that of
  the first), and never to the second when the two are distinct objects; the warning
  for the rejected insertion is in the diagnostics; and the second module is still in
  every capability list it was appended to before the rejection.
\<close>

theorem duplicate_name_keeps_first_owner:
  assumes "map_of (ownerPlug pm) n = None" and "n \<notin> set (ownerNames pre)"
    and "pluginName p1 = n" and "\<not> isEditFactory p1" and "hasCommon p1"
    and "pluginName p2 = n" and "\<not> isEditFactory p2" and "hasCommon p2"
  shows "let pm' = loadPlugins K toLower dir (pre @ (f1, Inr p1) # mid @ (f2, Inr p2) # post) pm in
      filter (\<lambda>e. fst e = n) (ownerPlug pm') = [(n, loaded K f1 p1)]
    \<and> map_of (ownerPlug pm') n = Some (loaded K f1 p1)
    \<and> addr (loaded K f1 p1) = addr p1
    \<and> (addr p1 \<noteq> addr p2 \<longrightarrow> (n, loaded K f2 p2) \<notin> set (ownerPlug pm'))
    \<and> alreadyLoaded n \<in> set (diagnostics pm')
    \<and> (accepted K p2 \<longrightarrow> loaded K f2 p2 \<in> set (filterPlugins pm'))
    \<and> (isIOMesh p2 \<longrightarrow> loaded K f2 p2 \<in> set (ioMeshPlugins pm'))
    \<and> (isIORaster p2 \<longrightarrow> loaded K f2 p2 \<in> set (ioRasterPlugins pm'))
    \<and> (isDecorate p2 \<longrightarrow> loaded K f2 p2 \<in> set (decoratePlugins pm')
          \<and> set (decorateActions p2) \<subseteq> set (decoratorActionList pm'))
    \<and> (isRender p2 \<longrightarrow> loaded K f2 p2 \<in> set (renderPlugins pm'))"
proof -
  define pm0 where "pm0 = pm\<lparr>diagnostics := diagnostics pm @ [''Current Plugins Dir is: '' @ dir @ '' '']\<rparr>"
  define pmA where "pmA = loadLoop K pm0 pre"
  define pm1 where "pm1 = loadCandidate K pmA (f1, Inr p1)"
  define pm2 where "pm2 = loadLoop K pm1 mid"
  define pm3 where "pm3 = loadCandidate K pm2 (f2, Inr p2)"
  define pm4 where "pm4 = loadLoop K pm3 post"
  have pm': "loadPlugins K toLower dir (pre @ (f1, Inr p1) # mid @ (f2, Inr p2) # post) pm
      = fillKnownIOFormats toLower pm4"
    by (simp add: loadPlugins_def loadLoop_append pm0_def pmA_def pm1_def pm2_def pm3_def pm4_def)
  from assms(1) have "n \<notin> fst ` set (ownerPlug pm0)"
    by (simp add: pm0_def map_of_eq_None_iff)
  with assms(2) have keys: "n \<notin> fst ` set (ownerPlug pmA)"
    unfolding pmA_def ownerPlug_keys_loadLoop by simp
  then have f0: "filter (\<lambda>e. fst e = n) (ownerPlug pmA) = []"
    by (auto simp: filter_empty_conv)
  from keys have m0: "map_of (ownerPlug pmA) n = None"
    by (simp add: map_of_eq_None_iff)
  have o1: "ownerPlug pm1 = ownerPlug pmA @ [(n, loaded K f1 p1)]"
    using assms(3-5) m0 by (simp add: pm1_def loadCandidate_Inr registerPlugin_eq)
  have m1: "map_of (ownerPlug pm1) n = Some (loaded K f1 p1)"
    using m0 by (simp add: o1 map_add_def)
  have f1: "filter (\<lambda>e. fst e = n) (ownerPlug pm1) = [(n, loaded K f1 p1)]"
    using f0 by (simp add: o1)
  have m2: "map_of (ownerPlug pm2) n = Some (loaded K f1 p1)"
    and f2: "filter (\<lambda>e. fst e = n) (ownerPlug pm2) = [(n, loaded K f1 p1)]"
    using loadLoop_owner_kept [OF m1, of K mid] f1 by (simp_all add: pm2_def)
  have m3: "map_of (ownerPlug pm3) n = Some (loaded K f1 p1)"
    and f3: "filter (\<lambda>e. fst e = n) (ownerPlug pm3) = [(n, loaded K f1 p1)]"
    using loadCandidate_owner_kept [OF m2, of K "(f2, Inr p2)"] f2 by (simp_all add: pm3_def)
  have m4: "map_of (ownerPlug pm4) n = Some (loaded K f1 p1)"
    and f4: "filter (\<lambda>e. fst e = n) (ownerPlug pm4) = [(n, loaded K f1 p1)]"
    using loadLoop_owner_kept [OF m3, of K post] f3 by (simp_all add: pm4_def)
  have d3: "alreadyLoaded n \<in> set (diagnostics pm3)"
    using assms(6-8) m2 by (simp add: pm3_def loadCandidate_Inr registerPlugin_eq)
  then have d4: "alreadyLoaded n \<in> set (diagnostics pm4)"
    unfolding pm4_def by (rule loadLoop_diagnostics_mono)
  have l3: "accepted K p2 \<longrightarrow> loaded K f2 p2 \<in> set (filterPlugins pm3)"
    "isIOMesh p2 \<longrightarrow> loaded K f2 p2 \<in> set (ioMeshPlugins pm3)"
    "isIORaster p2 \<longrightarrow> loaded K f2 p2 \<in> set (ioRasterPlugins pm3)"
    "isDecorate p2 \<longrightarrow> loaded K f2 p2 \<in> set (decoratePlugins pm3)
        \<and> set (decorateActions p2) \<subseteq> set (decoratorActionList pm3)"
    "isRender p2 \<longrightarrow> loaded K f2 p2 \<in> set (renderPlugins pm3)"
    by (simp_all add: pm3_def loadCandidate_Inr registerPlugin_eq)
  have l4: "accepted K p2 \<longrightarrow> loaded K f2 p2 \<in> set (filterPlugins pm4)"
    "isIOMesh p2 \<longrightarrow> loaded K f2 p2 \<in> set (ioMeshPlugins pm4)"
    "isIORaster p2 \<longrightarrow> loaded K f2 p2 \<in> set (ioRasterPlugins pm4)"
    "isDecorate p2 \<longrightarrow> loaded K f2 p2 \<in> set (decoratePlugins pm4)
        \<and> set (decorateActions p2) \<subseteq> set (decoratorActionList pm4)"
    "isRender p2 \<longrightarrow> loaded K f2 p2 \<in> set (renderPlugins pm4)"
    using l3 loadLoop_lists_mono [of pm3 K post] unfolding pm4_def by blast+
  have notin: "addr p1 \<noteq> addr p2 \<longrightarrow> (n, loaded K f2 p2) \<notin> set (ownerPlug pm4)"
  proof (intro impI notI)
    assume a: "addr p1 \<noteq> addr p2" and "(n, loaded K f2 p2) \<in> set (ownerPlug pm4)"
    then have "(n, loaded K f2 p2) \<in> set (filter (\<lambda>e. fst e = n) (ownerPlug pm4))"
      by simp
    then have "loaded K f2 p2 = loaded K f1 p1"
      unfolding f4 by simp
    then have "addr (loaded K f2 p2) = addr (loaded K f1 p1)"
      by simp
    with a show False by simp
  qed
  show ?thesis
    unfolding pm' Let_def using m4 f4 d4 l4 notin by simp
qed

theorem duplicate_name_keeps_first_owner_witness:
  "map_of (ownerPlug emptyManager) ''IOBase'' = None
   \<and> ''IOBase'' \<notin> set (ownerNames [(''libedit_measure.so'', Inr editAndDecorate)])
   \<and> pluginName (ioWithName 1 ''IOBase'') = ''IOBase'' \<and> \<not> isEditFactory (ioWithName 1 ''IOBase'')
   \<and> hasCommon (ioWithName 1 ''IOBase'')
   \<and> pluginName (ioWithName 2 ''IOBase'') = ''IOBase'' \<and> \<not> isEditFactory (ioWithName 2 ''IOBase'')
   \<and> hasCommon (ioWithName 2 ''IOBase'')
   \<and> ownerPlug (loadPlugins exampleEnumerators asciiToLower ''/opt/plugins''
        ([(''libedit_measure.so'', Inr editAndDecorate)] @ (''libio_a.so'', Inr (ioWithName 1 ''IOBase''))
           # [] @ (''libio_b.so'', Inr (ioWithName 2 ''IOBase'')) # [])
        emptyManager) = [(''IOBase'', ioWithName 1 ''IOBase'')]
   \<and> ioMeshPlugins (loadPlugins exampleEnumerators asciiToLower ''/opt/plugins''
        ([(''libedit_measure.so'', Inr editAndDecorate)] @ (''libio_a.so'', Inr (ioWithName 1 ''IOBase''))
           # [] @ (''libio_b.so'', Inr (ioWithName 2 ''IOBase'')) # [])
        emptyManager) = [ioWithName 1 ''IOBase'', ioWithName 2 ''IOBase'']
   \<and> alreadyLoaded ''IOBase'' \<in> set (diagnostics (loadPlugins exampleEnumerators asciiToLower ''/opt/plugins''
        ([(''libedit_measure.so'', Inr editAndDecorate)] @ (''libio_a.so'', Inr (ioWithName 1 ''IOBase''))
           # [] @ (''libio_b.so'', Inr (ioWithName 2 ''IOBase'')) # [])
        emptyManager))"
  using duplicate_name_keeps_first_owner
    [of emptyManager "''IOBase''" "[(''libedit_measure.so'', Inr editAndDecorate)]"
        "ioWithName 1 ''IOBase''" "ioWithName 2 ''IOBase''"
        exampleEnumerators asciiToLower "''/opt/plugins''" "''libio_a.so''" "[]" "''libio_b.so''" "[]"]
  by (simp add: ioWithName_def noPlugin_def editAndDecorate_def emptyManager_def hasCommon_def
        loaded_def accepted_def ownerNames_def modulesOf_def
        loadPlugins_def loadCandidate_Inr registerPlugin_eq alreadyLoaded_def)

subsection \<open>The import format table\<close>

lemma set_firstOccurrences [simp]: "set (firstOccurrences xs) = set xs"
  by (induction xs rule: firstOccurrences.induct) auto

lemma distinct_firstOccurrences [simp]: "distinct (firstOccurrences xs)"
  by (induction xs rule: firstOccurrences.induct) auto

lemma firstOccurrences_append:
  "firstOccurrences (xs @ ys) = firstOccurrences xs @ firstOccurrences (filter (\<lambda>y. y \<notin> set xs) ys)"
proof (induction xs arbitrary: ys rule: firstOccurrences.induct)
  case 1
  then show ?case by simp
next
  case (2 x xs)
  have "filter (\<lambda>y. y \<notin> set (filter (\<lambda>y. y \<noteq> x) xs)) (filter (\<lambda>y. y \<noteq> x) ys)
      = filter (\<lambda>y. y \<notin> set (x # xs)) ys"
    by (induction ys) auto
  with "2.IH" [of "filter (\<lambda>y. y \<noteq> x) ys"] show ?case
    by simp
qed

lemma starDot_simps [simp]:
  "starDot [] = []" "starDot (e # es) = '' *.'' @ e @ starDot es"
  "starDot (es @ es') = starDot es @ starDot es'"
  by (simp_all add: starDot_def)

lemma claimFree_Nil [simp]: "claimFree m p [] = m"
  by (simp add: claimFree_def)

lemma claimFree_free: "claimFree m p es e = None \<longleftrightarrow> m e = None \<and> e \<notin> set es"
  by (cases "m e") (auto simp: claimFree_def)

lemma claimFree_append: "claimFree (claimFree m p es) p es' = claimFree m p (es @ es')"
  by (auto simp: claimFree_def fun_eq_iff)

lemma claimFree_Cons_free: "m e = None \<Longrightarrow> claimFree (m(e \<mapsto> p)) p es = claimFree m p (e # es)"
  by (auto simp: claimFree_def fun_eq_iff)

lemma claimFree_Cons_taken: "m e \<noteq> None \<Longrightarrow> claimFree m p (e # es) = claimFree m p es"
  by (auto simp: claimFree_def fun_eq_iff)

lemma claimed_append:
  "firstOccurrences (filter (\<lambda>e. m e = None) es @ filter (\<lambda>e. m e = None) es') =
     firstOccurrences (filter (\<lambda>e. m e = None) es) @
     firstOccurrences (filter (\<lambda>e. claimFree m p es e = None) es')"
proof -
  have "filter (\<lambda>y. y \<notin> set (filter (\<lambda>e. m e = None) es)) (filter (\<lambda>e. m e = None) es')
      = filter (\<lambda>e. claimFree m p es e = None) es'"
    unfolding filter_filter by (rule filter_cong) (auto simp: claimFree_def)
  then show ?thesis
    by (simp only: firstOccurrences_append)
qed

lemma addExtension_eq:
  "addExtension toLower p (m, allKnown, entry) x =
     (if m (toLower x) = None
      then (m(toLower x \<mapsto> p), allKnown @ '' *.'' @ toLower x, entry @ '' *.'' @ toLower x)
      else (m, allKnown, entry @ '' *.'' @ toLower x))"
  by (simp add: addExtension_def Let_def)

lemma addExtension_fold:
  "foldl (addExtension toLower p) (m, allKnown, entry) exts =
     (claimFree m p (map toLower exts),
      allKnown @ starDot (firstOccurrences (filter (\<lambda>e. m e = None) (map toLower exts))),
      entry @ starDot (map toLower exts))"
proof (induction exts arbitrary: m allKnown entry)
  case Nil
  then show ?case by simp
next
  case (Cons x exts)
  show ?case
  proof (cases "m (toLower x) = None")
    case True
    let ?m' = "m(toLower x \<mapsto> p)"
    have step: "foldl (addExtension toLower p) (m, allKnown, entry) (x # exts) =
        foldl (addExtension toLower p)
          (?m', allKnown @ '' *.'' @ toLower x, entry @ '' *.'' @ toLower x) exts"
      using True by (simp add: addExtension_eq)
    have ih: "foldl (addExtension toLower p)
          (?m', allKnown @ '' *.'' @ toLower x, entry @ '' *.'' @ toLower x) exts =
        (claimFree ?m' p (map toLower exts),
         (allKnown @ '' *.'' @ toLower x) @
           starDot (firstOccurrences (filter (\<lambda>e. ?m' e = None) (map toLower exts))),
         (entry @ '' *.'' @ toLower x) @ starDot (map toLower exts))"
      by (rule Cons.IH)
    have m': "claimFree ?m' p (map toLower exts) = claimFree m p (map toLower (x # exts))"
      using claimFree_Cons_free [of m "toLower x" p "map toLower exts"] True by simp
    have "filter (\<lambda>e. ?m' e = None) (map toLower exts)
        = filter (\<lambda>y. y \<noteq> toLower x) (filter (\<lambda>e. m e = None) (map toLower exts))"
      by (induction exts) auto
    with True have fo: "firstOccurrences (filter (\<lambda>e. m e = None) (map toLower (x # exts))) =
        toLower x # firstOccurrences (filter (\<lambda>e. ?m' e = None) (map toLower exts))"
      by simp
    show ?thesis
      unfolding step ih m' fo by simp
  next
    case False
    then obtain q where q: "m (toLower x) = Some q"
      by auto
    have step: "foldl (addExtension toLower p) (m, allKnown, entry) (x # exts) =
        foldl (addExtension toLower p) (m, allKnown, entry @ '' *.'' @ toLower x) exts"
      using q by (simp add: addExtension_eq)
    have ih: "foldl (addExtension toLower p) (m, allKnown, entry @ '' *.'' @ toLower x) exts =
        (claimFree m p (map toLower exts),
         allKnown @ starDot (firstOccurrences (filter (\<lambda>e. m e = None) (map toLower exts))),
         (entry @ '' *.'' @ toLower x) @ starDot (map toLower exts))"
      by (rule Cons.IH)
    have m': "claimFree m p (map toLower (x # exts)) = claimFree m p (map toLower exts)"
      using claimFree_Cons_taken [of m "toLower x" p "map toLower exts"] q by simp
    from q have fo: "filter (\<lambda>e. m e = None) (map toLower (x # exts)) =
        filter (\<lambda>e. m e = None) (map toLower exts)"
      by simp
    show ?thesis
      unfolding step ih m' fo by simp
  qed
qed

lemma addFormat_eq:
  "addFormat toLower p (m, formatFilters, allKnown) fmt =
     (claimFree m p (map toLower (extensions fmt)),
      formatFilters @ [filterEntry toLower fmt],
      allKnown @ starDot (firstOccurrences (filter (\<lambda>e. m e = None) (map toLower (extensions fmt)))))"
  by (simp add: addFormat_def addExtension_fold filterEntry_def)

lemma loweredExtensions_simps [simp]:
  "loweredExtensions toLower [] = []"
  "loweredExtensions toLower (fmt # fmts) = map toLower (extensions fmt) @ loweredExtensions toLower fmts"
  by (simp_all add: loweredExtensions_def)

lemma addFormat_fold:
  "foldl (addFormat toLower p) (m, formatFilters, allKnown) formats =
     (claimFree m p (loweredExtensions toLower formats),
      formatFilters @ map (filterEntry toLower) formats,
      allKnown @ starDot (firstOccurrences (filter (\<lambda>e. m e = None) (loweredExtensions toLower formats))))"
proof (induction formats arbitrary: m formatFilters allKnown)
  case Nil
  then show ?case by simp
next
  case (Cons fmt formats)
  show ?case
    by (simp add: addFormat_eq Cons.IH claimFree_append
          claimed_append [of m "map toLower (extensions fmt)" _ p])
qed

lemma addPluginMeshFormats_eq:
  "addPluginMeshFormats toLower m formatFilters p formats =
     (claimFree m p (loweredExtensions toLower formats),
      formatFilters @ map (filterEntry toLower) formats,
      starDot (firstOccurrences (filter (\<lambda>e. m e = None) (loweredExtensions toLower formats))))"
  by (simp add: addPluginMeshFormats_def addFormat_fold)

lemma importMeshStep_eq:
  "importMeshStep toLower (m, formatFilters, allKnown) p =
     (claimFree m p (loweredExtensions toLower (importFormats p)),
      formatFilters @ map (filterEntry toLower) (importFormats p),
      allKnown @ starDot (firstOccurrences
        (filter (\<lambda>e. m e = None) (loweredExtensions toLower (importFormats p)))))"
  by (simp add: importMeshStep_def addPluginMeshFormats_eq)

lemma firstDeclaring_Nil [simp]: "firstDeclaring toLower m [] = m"
  by (auto simp: firstDeclaring_def fun_eq_iff split: option.splits)

lemma firstDeclaring_Cons:
  "firstDeclaring toLower (claimFree m p (loweredExtensions toLower (importFormats p))) ps
     = firstDeclaring toLower m (p # ps)"
  by (auto simp: firstDeclaring_def claimFree_def fun_eq_iff split: option.splits)

lemma importMeshStep_fold:
  "foldl (importMeshStep toLower) (m, formatFilters, allKnown) plugins =
     (firstDeclaring toLower m plugins,
      formatFilters @ concat (map (\<lambda>p. map (filterEntry toLower) (importFormats p)) plugins),
      allKnown @ starDot (firstOccurrences (filter (\<lambda>e. m e = None)
        (concat (map (\<lambda>p. loweredExtensions toLower (importFormats p)) plugins)))))"
proof (induction plugins arbitrary: m formatFilters allKnown)
  case Nil
  then show ?case by simp
next
  case (Cons p plugins)
  show ?case
    by (simp add: importMeshStep_eq Cons.IH firstDeclaring_Cons
          claimed_append [of m "loweredExtensions toLower (importFormats p)" _ p])
qed

text \<open>
  C2. One call of \<open>addPluginMeshFormats\<close> claims for its plugin exactly the
  lower-cased extensions that were free in the table, returns for the aggregate string
  each of them once, at its first occurrence, and appends for every format an entry
  with all its lower-cased extensions, claimed or not. Over the MeshIO plugins in list
  order, \<open>fillKnownIOFormats\<close> leaves every lower-cased import extension with the first
  plugin that declares it (an extension already in the table keeps its owner), puts
  into the ``All known formats'' string each newly claimed extension once, and lists
  every extension of every format in that format's own entry.
\<close>

theorem import_extension_first_registrant_wins:
  "addPluginMeshFormats toLower m formatFilters p formats =
     (claimFree m p (loweredExtensions toLower formats),
      formatFilters @ map (filterEntry toLower) formats,
      starDot (firstOccurrences (filter (\<lambda>e. m e = None) (loweredExtensions toLower formats))))
   \<and> allKnowInputMeshFormats (fillKnownIOFormats toLower pm) =
       firstDeclaring toLower (allKnowInputMeshFormats pm) (ioMeshPlugins pm)
   \<and> inpMeshFilters (fillKnownIOFormats toLower pm) =
       (''All known formats ('' @
          starDot (firstOccurrences (filter (\<lambda>e. allKnowInputMeshFormats pm e = None)
            (concat (map (\<lambda>p. loweredExtensions toLower (importFormats p)) (ioMeshPlugins pm))))) @
        '')'')
       # inpMeshFilters pm
       @ concat (map (\<lambda>p. map (filterEntry toLower) (importFormats p)) (ioMeshPlugins pm))
   \<and> distinct (firstOccurrences (filter (\<lambda>e. allKnowInputMeshFormats pm e = None)
            (concat (map (\<lambda>p. loweredExtensions toLower (importFormats p)) (ioMeshPlugins pm)))))"
  by (simp add: addPluginMeshFormats_eq fillKnownIOFormats_def importMeshLoop_def importMeshStep_fold
        split: prod.splits)

theorem import_extension_first_registrant_wins_witness:
  "allKnowInputMeshFormats
     (fillKnownIOFormats asciiToLower
        (emptyManager\<lparr>ioMeshPlugins :=
           [xyzReader 1 ''IOFirst'' [''XYZ'', ''pts''], xyzReader 2 ''IOSecond'' [''xyz'', ''asc'']]\<rparr>))
     ''xyz'' = Some (xyzReader 1 ''IOFirst'' [''XYZ'', ''pts''])
   \<and> inpMeshFilters
     (fillKnownIOFormats asciiToLower
        (emptyManager\<lparr>ioMeshPlugins :=
           [xyzReader 1 ''IOFirst'' [''XYZ'', ''pts''], xyzReader 2 ''IOSecond'' [''xyz'', ''asc'']]\<rparr>))
     = [''All known formats ( *.xyz *.pts *.asc)'',
        ''IOFirst point cloud ( *.xyz *.pts)'',
        ''IOSecond point cloud ( *.xyz *.asc)'']"
  using import_extension_first_registrant_wins
    [of asciiToLower Map.empty "[]" noPlugin "[]"
        "emptyManager\<lparr>ioMeshPlugins :=
           [xyzReader 1 ''IOFirst'' [''XYZ'', ''pts''], xyzReader 2 ''IOSecond'' [''xyz'', ''asc'']]\<rparr>"]
  by (simp add: emptyManager_def xyzReader_def noPlugin_def firstDeclaring_def filterEntry_def
        asciiToLower_def)

subsection \<open>Name conflicts in the action registry\<close>

lemma insertFilterActions_snoc:
  "insertFilterActions f m (acts @ [a]) =
     (insertFilterActions f m acts)(actionText a \<mapsto> setData f a)"
  by (simp add: insertFilterActions_def)

lemma insertFilterActions_lookup:
  "insertFilterActions f m acts n =
     (if n \<in> set (map actionText acts)
      then Some (setData f (last (filter (\<lambda>a. actionText a = n) acts)))
      else m n)"
proof (induction acts rule: rev_induct)
  case Nil
  then show ?case by (simp add: insertFilterActions_def)
next
  case (snoc a acts)
  then show ?case
    by (simp add: insertFilterActions_snoc)
qed

lemma loadCandidate_not_provided:
  "\<not> provides K n c \<Longrightarrow> actionFilterMap (loadCandidate K pm c) n = actionFilterMap pm n"
  by (cases c; cases "snd c")
     (auto simp: provides_def loadCandidate_Inl loadCandidate_Inr registerPlugin_eq
        insertFilterActions_lookup)

lemma loadLoop_not_provided:
  "\<forall>c \<in> set cs. \<not> provides K n c \<Longrightarrow>
     actionFilterMap (loadLoop K pm cs) n = actionFilterMap pm n"
  by (induction cs arbitrary: pm) (simp_all add: loadCandidate_not_provided)

lemma loadCandidate_provided:
  "accepted K p \<Longrightarrow> a \<in> set (filterActions p) \<Longrightarrow>
     actionFilterMap (loadCandidate K pm (f, Inr p)) (actionText a) =
       Some (setData f (last (filter (\<lambda>b. actionText b = actionText a) (filterActions p))))"
  by (simp add: loadCandidate_Inr registerPlugin_eq insertFilterActions_lookup)

text \<open>
  C3. Two accepted filter modules, the second processed after the first, each have an
  action with the same text. Once the first is processed the registry maps the text to
  the first module's action; once the second is processed it maps it to the second
  module's action, carrying the second file name as data, and \<open>filterAction\<close> returns
  that action. It is still the answer at the end of the pass when no candidate after
  the second registers that text again. (Within one module the last action of that
  text is the one that stays.)
\<close>

theorem later_filter_action_wins:
  assumes "accepted K p1" and "a1 \<in> set (filterActions p1)"
    and "accepted K p2" and "a2 \<in> set (filterActions p2)"
    and "actionText a1 = actionText a2"
  shows "filterAction (loadLoop K pm (pre @ [(f1, Inr p1)])) (actionText a1) =
           Some (setData f1 (last (filter (\<lambda>b. actionText b = actionText a1) (filterActions p1))))
    \<and> filterAction (loadLoop K pm (pre @ (f1, Inr p1) # mid @ [(f2, Inr p2)])) (actionText a1) =
           Some (setData f2 (last (filter (\<lambda>b. actionText b = actionText a1) (filterActions p2))))
    \<and> ((\<forall>c \<in> set post. \<not> provides K (actionText a1) c) \<longrightarrow>
         filterAction (loadPlugins K toLower dir (pre @ (f1, Inr p1) # mid @ (f2, Inr p2) # post) pm)
           (actionText a1) =
           Some (setData f2 (last (filter (\<lambda>b. actionText b = actionText a1) (filterActions p2)))))
    \<and> actionData (setData f2 (last (filter (\<lambda>b. actionText b = actionText a1) (filterActions p2)))) = Some f2
    \<and> last (filter (\<lambda>b. actionText b = actionText a1) (filterActions p2)) \<in> set (filterActions p2)"
proof -
  let ?n = "actionText a1"
  let ?r2 = "Some (setData f2 (last (filter (\<lambda>b. actionText b = ?n) (filterActions p2))))"
  have 1: "filterAction (loadLoop K pm (pre @ [(f1, Inr p1)])) ?n =
           Some (setData f1 (last (filter (\<lambda>b. actionText b = ?n) (filterActions p1))))"
    using loadCandidate_provided [OF assms(1,2)]
    by (simp add: filterAction_def loadLoop_append)
  have step2: "actionFilterMap (loadCandidate K pm' (f2, Inr p2)) ?n = ?r2" for pm'
    using loadCandidate_provided [OF assms(3,4), of pm' f2] assms(5) by simp
  have app: "pre @ (f1, Inr p1) # mid @ [(f2, Inr p2)] = (pre @ (f1, Inr p1) # mid) @ [(f2, Inr p2)]"
    by simp
  have 2: "filterAction (loadLoop K pm (pre @ (f1, Inr p1) # mid @ [(f2, Inr p2)])) ?n = ?r2"
    unfolding app loadLoop_append [of K pm "pre @ (f1, Inr p1) # mid"]
    by (simp add: filterAction_def step2)
  have 3: "filterAction (loadPlugins K toLower dir (pre @ (f1, Inr p1) # mid @ (f2, Inr p2) # post) pm) ?n = ?r2"
    if "\<forall>c \<in> set post. \<not> provides K ?n c"
  proof -
    have app': "pre @ (f1, Inr p1) # mid @ (f2, Inr p2) # post
        = (pre @ (f1, Inr p1) # mid) @ (f2, Inr p2) # post"
      by simp
    show ?thesis
      unfolding loadPlugins_def app' loadLoop_append [of K _ "pre @ (f1, Inr p1) # mid"]
      by (simp add: filterAction_def loadLoop_not_provided [OF that] step2)
  qed
  have "filter (\<lambda>b. actionText b = ?n) (filterActions p2) \<noteq> []"
    using assms(4,5) by (auto simp: filter_empty_conv)
  then have "last (filter (\<lambda>b. actionText b = ?n) (filterActions p2))
      \<in> set (filter (\<lambda>b. actionText b = ?n) (filterActions p2))"
    by (rule last_in_set)
  then have 5: "last (filter (\<lambda>b. actionText b = ?n) (filterActions p2)) \<in> set (filterActions p2)"
    by simp
  show ?thesis
    using 1 2 3 5 by (simp add: setData_def)
qed

theorem later_filter_action_wins_witness:
  "accepted exampleEnumerators (smoothFilter 1 ''FilterA'' 1)
   \<and> (goodAction ''Smooth'')\<lparr>getClass := 1\<rparr> \<in> set (filterActions (smoothFilter 1 ''FilterA'' 1))
   \<and> accepted exampleEnumerators (smoothFilter 2 ''FilterB'' 2)
   \<and> (goodAction ''Smooth'')\<lparr>getClass := 2\<rparr> \<in> set (filterActions (smoothFilter 2 ''FilterB'' 2))
   \<and> actionText ((goodAction ''Smooth'')\<lparr>getClass := 1\<rparr>) = actionText ((goodAction ''Smooth'')\<lparr>getClass := 2\<rparr>)
   \<and> filterAction (loadPlugins exampleEnumerators asciiToLower ''/opt/plugins''
        [(''liba.so'', Inr (smoothFilter 1 ''FilterA'' 1)), (''libb.so'', Inr (smoothFilter 2 ''FilterB'' 2))]
        emptyManager) ''Smooth''
       = Some ((goodAction ''Smooth'')\<lparr>getClass := 2, actionData := Some ''libb.so''\<rparr>)"
  using later_filter_action_wins
    [of exampleEnumerators "smoothFilter 1 ''FilterA'' 1" "(goodAction ''Smooth'')\<lparr>getClass := 1\<rparr>"
        "smoothFilter 2 ''FilterB'' 2" "(goodAction ''Smooth'')\<lparr>getClass := 2\<rparr>"
        emptyManager "[]" "''liba.so''" "[]" "''libb.so''" "[]" asciiToLower "''/opt/plugins''"]
  by (simp add: smoothFilter_def noPlugin_def goodAction_def accepted_def wellSpecified_def
        exampleEnumerators_def setData_def)

subsection \<open>Looking up a decoration\<close>

lemma hasDecoration_iff:
  "hasDecoration name acs \<longleftrightarrow> name \<in> set (map decorationName acs)"
  by (induction acs) auto

lemma searchDecoratePlugins_first:
  "\<forall>q \<in> set pre. name \<notin> set (map decorationName (decorateActions q)) \<Longrightarrow>
   name \<in> set (map decorationName (decorateActions tt)) \<Longrightarrow>
   searchDecoratePlugins name (pre @ tt # post) = Some tt"
  by (induction pre) (simp_all add: hasDecoration_iff)

lemma searchDecoratePlugins_none:
  "\<forall>q \<in> set tts. name \<notin> set (map decorationName (decorateActions q)) \<Longrightarrow>
   searchDecoratePlugins name tts = None"
  by (induction tts) (simp_all add: hasDecoration_iff)

text \<open>
  C6, as the claim states it, fails on the code: with assertions compiled in, a name
  that no decorator has ends in \<^verbatim>\<open>assert(0)\<close>, not in a returned not-found value.
\<close>

theorem getDecoratePlugin_miss_aborts:
  "getDecoratePlugin False twoDecorators ''Ruler'' = Inl AssertionFailed
   \<and> getDecoratePlugin False twoDecorators ''Ruler'' \<noteq> Inr None"
  by (simp add: getDecoratePlugin_def twoDecorators_def decorator_def noPlugin_def emptyManager_def
        loadCandidate_Inr registerPlugin_eq loaded_def accepted_def)

text \<open>
  C6, amended. \<open>getDecoratePlugin\<close> walks the decorate plugins in list order and
  returns the first one that has an action with the decoration name asked for, in
  every build. When no decorate plugin has such an action the code reaches
  \<^verbatim>\<open>assert(0)\<close>: a build with assertions stops there, and only a build that defines
  \<^verbatim>\<open>NDEBUG\<close> returns the null pointer.
\<close>

theorem getDecoratePlugin_first_match_or_assert:
  "(decoratePlugins pm = pre @ tt # post
      \<and> (\<forall>q \<in> set pre. name \<notin> set (map decorationName (decorateActions q)))
      \<and> name \<in> set (map decorationName (decorateActions tt))
     \<longrightarrow> getDecoratePlugin NDEBUG pm name = Inr (Some tt))
   \<and> ((\<forall>q \<in> set (decoratePlugins pm). name \<notin> set (map decorationName (decorateActions q)))
     \<longrightarrow> getDecoratePlugin False pm name = Inl AssertionFailed
       \<and> getDecoratePlugin True pm name = Inr None)"
  by (auto simp: getDecoratePlugin_def searchDecoratePlugins_first searchDecoratePlugins_none)

theorem getDecoratePlugin_first_match_or_assert_witness:
  "decoratePlugins twoDecorators =
      [] @ decorator 1 ''DecorateBase'' [''Axis''] # [decorator 2 ''DecorateExtra'' [''Axis'', ''Grid'']]
   \<and> ''Axis'' \<in> set (map decorationName (decorateActions (decorator 1 ''DecorateBase'' [''Axis''])))
   \<and> getDecoratePlugin False twoDecorators ''Axis'' = Inr (Some (decorator 1 ''DecorateBase'' [''Axis'']))
   \<and> ''Ruler'' \<notin> set (map decorationName (decorateActions (decorator 1 ''DecorateBase'' [''Axis''])))
   \<and> ''Ruler'' \<notin> set (map decorationName (decorateActions (decorator 2 ''DecorateExtra'' [''Axis'', ''Grid''])))
   \<and> getDecoratePlugin True twoDecorators ''Ruler'' = Inr None"
  using getDecoratePlugin_first_match_or_assert
      [of twoDecorators "[]" "decorator 1 ''DecorateBase'' [''Axis'']"
          "[decorator 2 ''DecorateExtra'' [''Axis'', ''Grid'']]" "''Axis''" False]
    getDecoratePlugin_first_match_or_assert
      [of twoDecorators "[]" "decorator 1 ''DecorateBase'' [''Axis'']"
          "[decorator 2 ''DecorateExtra'' [''Axis'', ''Grid'']]" "''Ruler''" False]
  by (simp add: twoDecorators_def decorator_def noPlugin_def emptyManager_def
        loadCandidate_Inr registerPlugin_eq loaded_def accepted_def)

subsection \<open>Teardown\<close>

lemma deleted_loadCandidate_Inl [simp]:
  "deleted (loadCandidate K pm (f, Inl e)) = deleted pm"
  by (simp add: deleted_def loadCandidate_Inl)

lemma set_deleted_loadCandidate_Inr:
  "set (deleted (loadCandidate K pm (f, Inr p))) =
     set (deleted pm) \<union>
     (if isEditFactory p \<or> (hasCommon p \<and> map_of (ownerPlug pm) (pluginName p) = None)
      then {addr p} else {})"
  by (auto simp: deleted_def loadCandidate_Inr registerPlugin_eq)

lemma distinct_deleted_loadCandidate_Inr:
  "distinct (deleted pm) \<Longrightarrow> addr p \<notin> set (deleted pm) \<Longrightarrow>
     distinct (deleted (loadCandidate K pm (f, Inr p)))"
  by (auto simp: deleted_def loadCandidate_Inr registerPlugin_eq)

lemma set_deleted_loadLoop:
  "set (deleted pm) \<subseteq> set (deleted (loadLoop K pm cs))
   \<and> set (deleted (loadLoop K pm cs)) \<subseteq> set (deleted pm) \<union> addr ` set (modulesOf cs)"
proof (induction cs arbitrary: pm)
  case Nil
  then show ?case by simp
next
  case (Cons c cs)
  obtain f r where c: "c = (f, r)" by (cases c)
  show ?case
  proof (cases r)
    case (Inl e)
    with c Cons.IH [of "loadCandidate K pm c"] show ?thesis by simp
  next
    case (Inr p)
    with c Cons.IH [of "loadCandidate K pm c"] set_deleted_loadCandidate_Inr [of K pm f p]
    show ?thesis by (auto split: if_splits)
  qed
qed

lemma distinct_deleted_loadLoop:
  "distinct (deleted pm) \<Longrightarrow> distinct (map addr (modulesOf cs)) \<Longrightarrow>
   set (deleted pm) \<inter> addr ` set (modulesOf cs) = {} \<Longrightarrow>
     distinct (deleted (loadLoop K pm cs))"
proof (induction cs arbitrary: pm)
  case Nil
  then show ?case by simp
next
  case (Cons c cs)
  obtain f r where c: "c = (f, r)" by (cases c)
  show ?case
  proof (cases r)
    case (Inl e)
    with c Cons.prems Cons.IH [of "loadCandidate K pm c"] show ?thesis by simp
  next
    case (Inr p)
    from Cons.prems c Inr have 1: "addr p \<notin> set (deleted pm)"
      and 2: "distinct (map addr (modulesOf cs))"
      and 3: "addr p \<notin> addr ` set (modulesOf cs)"
      and 4: "set (deleted pm) \<inter> addr ` set (modulesOf cs) = {}"
      by auto
    have d: "distinct (deleted (loadCandidate K pm (f, Inr p)))"
      using Cons.prems(1) 1 by (rule distinct_deleted_loadCandidate_Inr)
    have "set (deleted (loadCandidate K pm (f, Inr p))) \<inter> addr ` set (modulesOf cs) = {}"
      using 3 4 set_deleted_loadCandidate_Inr [of K pm f p] by (auto split: if_splits)
    with d 2 have "distinct (deleted (loadLoop K (loadCandidate K pm (f, Inr p)) cs))"
      by (intro Cons.IH)
    with c Inr show ?thesis by simp
  qed
qed

lemma loadCandidate_owners_mono:
  "set (ownerPlug pm) \<subseteq> set (ownerPlug (loadCandidate K pm c))
   \<and> set (editPlugins pm) \<subseteq> set (editPlugins (loadCandidate K pm c))"
  by (cases c; cases "snd c") (simp_all add: loadCandidate_Inl loadCandidate_Inr registerPlugin_eq)

lemma loadLoop_owners_mono:
  "set (ownerPlug pm) \<subseteq> set (ownerPlug (loadLoop K pm cs))
   \<and> set (editPlugins pm) \<subseteq> set (editPlugins (loadLoop K pm cs))"
proof (induction cs arbitrary: pm)
  case Nil
  then show ?case by simp
next
  case (Cons c cs)
  from loadCandidate_owners_mono [of pm K c] Cons.IH [of "loadCandidate K pm c"]
  show ?case
    unfolding loadLoop_Cons by (meson subset_trans)
qed

lemma count_list_distinct:
  "distinct xs \<Longrightarrow> count_list xs x = (if x \<in> set xs then 1 else 0)"
  by (induction xs) auto

lemma deleted_fillKnownIOFormats [simp]:
  "deleted (fillKnownIOFormats toLower pm) = deleted pm"
  by (simp add: deleted_def)

text \<open>
  C7, as the claim states it, fails on the code: of two MeshIO modules with the same
  name both load and both are in the MeshIO list, but the second is in neither owning
  container, and the destructor applies \<^verbatim>\<open>delete\<close> to the first only.
\<close>

theorem second_module_of_a_name_is_never_released:
  "pluginsLoaded (loadPlugins exampleEnumerators asciiToLower ''/opt/plugins''
      [(''libio_a.so'', Inr (ioWithName 1 ''IOBase'')), (''libio_b.so'', Inr (ioWithName 2 ''IOBase''))]
      emptyManager) = [''libio_a.so'', ''libio_b.so'']
   \<and> ioWithName 2 ''IOBase'' \<in> set (ioMeshPlugins (loadPlugins exampleEnumerators asciiToLower ''/opt/plugins''
      [(''libio_a.so'', Inr (ioWithName 1 ''IOBase'')), (''libio_b.so'', Inr (ioWithName 2 ''IOBase''))]
      emptyManager))
   \<and> fst (destructor (loadPlugins exampleEnumerators asciiToLower ''/opt/plugins''
      [(''libio_a.so'', Inr (ioWithName 1 ''IOBase'')), (''libio_b.so'', Inr (ioWithName 2 ''IOBase''))]
      emptyManager)) = [1]
   \<and> count_list (fst (destructor (loadPlugins exampleEnumerators asciiToLower ''/opt/plugins''
      [(''libio_a.so'', Inr (ioWithName 1 ''IOBase'')), (''libio_b.so'', Inr (ioWithName 2 ''IOBase''))]
      emptyManager))) (addr (ioWithName 2 ''IOBase'')) = 0"
  by (simp add: loadPlugins_def loadCandidate_Inr registerPlugin_eq ioWithName_def noPlugin_def
        emptyManager_def hasCommon_def loaded_def accepted_def deleted_def destructor_def)

text \<open>
  C7, amended. After a pass of a fresh manager over modules that are distinct objects,
  the destructor applies \<^verbatim>\<open>delete\<close> to no address twice and only to addresses of
  loaded modules. A loaded module is released exactly once when it is an edit factory
  (held by the edit list only), or when \<^verbatim>\<open>iCommon\<close> is set for it and no earlier module
  reached the owner map under its name (held by the owner map only); otherwise, that is
  when it matches no contract or its name was taken, it is held by no owning container
  and is not released at all.
\<close>

theorem teardown_releases_owned_modules_once:
  assumes "distinct (map addr (modulesOf (pre @ (f, Inr p) # post)))"
  shows "let pm' = loadPlugins K toLower dir (pre @ (f, Inr p) # post) emptyManager in
      distinct (fst (destructor pm'))
    \<and> set (fst (destructor pm')) \<subseteq> addr ` set (modulesOf (pre @ (f, Inr p) # post))
    \<and> count_list (fst (destructor pm')) (addr p) =
        (if isEditFactory p \<or> (hasCommon p \<and> pluginName p \<notin> set (ownerNames pre)) then 1 else 0)
    \<and> count_list (map (\<lambda>e. addr (snd e)) (ownerPlug pm')) (addr p) =
        (if \<not> isEditFactory p \<and> hasCommon p \<and> pluginName p \<notin> set (ownerNames pre) then 1 else 0)
    \<and> count_list (map addr (editPlugins pm')) (addr p) = (if isEditFactory p then 1 else 0)"
proof -
  define pm0 where "pm0 = emptyManager\<lparr>diagnostics := diagnostics emptyManager @
      [''Current Plugins Dir is: '' @ dir @ '' '']\<rparr>"
  define pmA where "pmA = loadLoop K pm0 pre"
  define pmB where "pmB = loadCandidate K pmA (f, Inr p)"
  define pmC where "pmC = loadLoop K pmB post"
  let ?cs = "pre @ (f, Inr p) # post"
  have pm': "loadPlugins K toLower dir ?cs emptyManager = fillKnownIOFormats toLower pmC"
    by (simp add: loadPlugins_def loadLoop_append pm0_def pmA_def pmB_def pmC_def)
  have C: "pmC = loadLoop K pm0 ?cs"
    by (simp add: loadLoop_append pmA_def pmB_def pmC_def)
  have d0: "deleted pm0 = []" and o0: "ownerPlug pm0 = []"
    by (simp_all add: pm0_def deleted_def emptyManager_def)
  have dist: "distinct (deleted pmC)"
    unfolding C using assms by (intro distinct_deleted_loadLoop) (simp_all add: d0)
  have sub: "set (deleted pmC) \<subseteq> addr ` set (modulesOf ?cs)"
    unfolding C using set_deleted_loadLoop [of pm0 K ?cs] by (simp add: d0)
  from assms have npre: "addr p \<notin> addr ` set (modulesOf pre)"
    and npost: "addr p \<notin> addr ` set (modulesOf post)"
    by auto
  have nA: "addr p \<notin> set (deleted pmA)"
    using set_deleted_loadLoop [of pm0 K pre] npre by (auto simp: pmA_def d0)
  have keys: "map_of (ownerPlug pmA) (pluginName p) = None \<longleftrightarrow> pluginName p \<notin> set (ownerNames pre)"
    using ownerPlug_keys_loadLoop [of K pm0 pre] by (simp add: pmA_def o0 map_of_eq_None_iff)
  let ?own = "\<not> isEditFactory p \<and> hasCommon p \<and> pluginName p \<notin> set (ownerNames pre)"
  have B: "addr p \<in> set (deleted pmB) \<longleftrightarrow> isEditFactory p \<or> ?own"
    using set_deleted_loadCandidate_Inr [of K pmA f p] nA keys by (auto simp: pmB_def)
  have "addr p \<in> set (deleted pmC) \<longleftrightarrow> addr p \<in> set (deleted pmB)"
    using set_deleted_loadLoop [of pmB K post] npost by (auto simp: pmC_def)
  with B have mem: "addr p \<in> set (deleted pmC) \<longleftrightarrow> isEditFactory p \<or> ?own"
    by simp
  have oA: "addr p \<notin> set (map (\<lambda>e. addr (snd e)) (ownerPlug pmA))"
    and eA: "addr p \<notin> set (map addr (editPlugins pmA))"
    using nA by (auto simp: deleted_def)
  have oB: "addr p \<in> set (map (\<lambda>e. addr (snd e)) (ownerPlug pmB)) \<longleftrightarrow> ?own"
    using oA keys by (auto simp: pmB_def loadCandidate_Inr registerPlugin_eq)
  have eB: "addr p \<in> set (map addr (editPlugins pmB)) \<longleftrightarrow> isEditFactory p"
    using eA by (auto simp: pmB_def loadCandidate_Inr registerPlugin_eq)
  have split: "deleted pmC = map (\<lambda>e. addr (snd e)) (ownerPlug pmC) @ map addr (editPlugins pmC)"
    by (simp add: deleted_def)
  from dist have dO: "distinct (map (\<lambda>e. addr (snd e)) (ownerPlug pmC))"
    and dE: "distinct (map addr (editPlugins pmC))"
    and disj: "set (map (\<lambda>e. addr (snd e)) (ownerPlug pmC)) \<inter> set (map addr (editPlugins pmC)) = {}"
    unfolding split by simp_all
  have monoO: "set (map (\<lambda>e. addr (snd e)) (ownerPlug pmB)) \<subseteq> set (map (\<lambda>e. addr (snd e)) (ownerPlug pmC))"
    and monoE: "set (map addr (editPlugins pmB)) \<subseteq> set (map addr (editPlugins pmC))"
    using loadLoop_owners_mono [of pmB K post] by (auto simp: pmC_def)
  have inC: "addr p \<in> set (map (\<lambda>e. addr (snd e)) (ownerPlug pmC)) \<or> addr p \<in> set (map addr (editPlugins pmC))
      \<longleftrightarrow> isEditFactory p \<or> ?own"
    using mem unfolding split by simp
  have oC: "addr p \<in> set (map (\<lambda>e. addr (snd e)) (ownerPlug pmC)) \<longleftrightarrow> ?own"
    using oB eB monoO monoE disj inC by blast
  have eC: "addr p \<in> set (map addr (editPlugins pmC)) \<longleftrightarrow> isEditFactory p"
    using oB eB monoO monoE disj inC by blast
  have c1: "count_list (deleted pmC) (addr p) = (if isEditFactory p \<or> ?own then 1 else 0)"
    using count_list_distinct [OF dist, of "addr p"] mem by simp
  have c2: "count_list (map (\<lambda>e. addr (snd e)) (ownerPlug pmC)) (addr p) = (if ?own then 1 else 0)"
    using count_list_distinct [OF dO, of "addr p"] oC by simp
  have c3: "count_list (map addr (editPlugins pmC)) (addr p) = (if isEditFactory p then 1 else 0)"
    using count_list_distinct [OF dE, of "addr p"] eC by simp
  have c1': "count_list (deleted pmC) (addr p) =
      (if isEditFactory p \<or> (hasCommon p \<and> pluginName p \<notin> set (ownerNames pre)) then 1 else 0)"
    using c1 by auto
  show ?thesis
    unfolding pm' Let_def using dist sub c1' c2 c3 by (simp add: destructor_def)
qed

theorem teardown_releases_owned_modules_once_witness:
  "distinct (map addr (modulesOf ([(''libio_a.so'', Inr (ioWithName 1 ''IOBase''))]
      @ (''libedit_measure.so'', Inr editAndDecorate) # [(''libio_b.so'', Inr (ioWithName 2 ''IOBase''))])))
   \<and> fst (destructor (loadPlugins exampleEnumerators asciiToLower ''/opt/plugins''
        ([(''libio_a.so'', Inr (ioWithName 1 ''IOBase''))]
          @ (''libedit_measure.so'', Inr editAndDecorate) # [(''libio_b.so'', Inr (ioWithName 2 ''IOBase''))])
        emptyManager)) = [1, 3]
   \<and> count_list (fst (destructor (loadPlugins exampleEnumerators asciiToLower ''/opt/plugins''
        ([(''libio_a.so'', Inr (ioWithName 1 ''IOBase''))]
          @ (''libedit_measure.so'', Inr editAndDecorate) # [(''libio_b.so'', Inr (ioWithName 2 ''IOBase''))])
        emptyManager))) (addr editAndDecorate) = 1"
  using teardown_releases_owned_modules_once
    [of "[(''libio_a.so'', Inr (ioWithName 1 ''IOBase''))]" "''libedit_measure.so''" editAndDecorate
        "[(''libio_b.so'', Inr (ioWithName 2 ''IOBase''))]" exampleEnumerators asciiToLower "''/opt/plugins''"]
  by (simp add: loadPlugins_def loadCandidate_Inr registerPlugin_eq ioWithName_def noPlugin_def
        editAndDecorate_def emptyManager_def hasCommon_def loaded_def accepted_def deleted_def
        destructor_def modulesOf_def)

subsection \<open>The plugin name without the platform prefix\<close>

text \<open>
  C9. \<open>osIndependentPluginName\<close> returns the base name of the path without its first
  \<open>k\<close> characters, where \<open>k\<close> is the length of the platform's prefix, whatever those
  characters are: the code never compares them with the prefix. On the platforms whose
  prefix is \<^verbatim>\<open>lib\<close> the first three characters go, and a base name of at most three
  characters gives the empty string.
\<close>

theorem osIndependentPluginName_removes_prefix_length:
  "osIndependentPluginName os plname =
     drop (length (fileNamePrefixPluginDLLs os)) (baseName os plname)
   \<and> length (osIndependentPluginName os plname) =
       length (baseName os plname) - length (fileNamePrefixPluginDLLs os)
   \<and> (os \<noteq> Q_OS_WIN \<longrightarrow> osIndependentPluginName os plname = drop 3 (baseName os plname))
   \<and> (os \<noteq> Q_OS_WIN \<longrightarrow> length (baseName os plname) \<le> 3 \<longrightarrow>
        osIndependentPluginName os plname = [])"
  by (cases os) (simp_all add: osIndependentPluginName_def fileNamePrefixPluginDLLs_def numeral_3_eq_3)

theorem osIndependentPluginName_removes_prefix_length_witness:
  "Q_OS_LINUX \<noteq> Q_OS_WIN
   \<and> length (baseName Q_OS_LINUX ''/opt/plugins/io.so'') \<le> 3
   \<and> osIndependentPluginName Q_OS_LINUX ''/opt/plugins/io.so'' = []
   \<and> osIndependentPluginName Q_OS_LINUX ''/opt/plugins/filter_plymc.so'' = ''ter_plymc''"
  using osIndependentPluginName_removes_prefix_length [of Q_OS_LINUX "''/opt/plugins/io.so''"]
        osIndependentPluginName_removes_prefix_length [of Q_OS_LINUX "''/opt/plugins/filter_plymc.so''"]
  by (simp add: baseName_def fileName_of_def fromNativeSeparators_def fileNamePrefixPluginDLLs_def)

end
